theory Spec2Isabelle
  imports Main
begin

section \<open>Exceptions\<close>

text \<open>
  The Python exceptions the modelled code raises. A function that can raise returns
  \<open>error + 'a\<close>, with \<open>Inl\<close> for the exception.
\<close>

datatype error =
    KeyError | ValueError | TypeError | AttributeError | AssertionError | NotImplementedError

section \<open>UI action rows (disnake/ui/action\_row.py)\<close>

text \<open>
  A UI action row holds the list \<open>_children\<close>. The items it stores are instances of
  \<open>WrappedComponent\<close>; the model is polymorphic in the item type \<open>'i\<close> and every
  function takes the items' \<open>width\<close> property as its first argument \<open>wd\<close>
  (in \<open>ui/button.py\<close> it is the constant 1; the select and text input modules are
  not part of the sources).
\<close>

record 'i ui_ActionRow =
  children :: "'i list"

definition empty_row :: "'i ui_ActionRow" where
  "empty_row = \<lparr>children = []\<rparr>"

text \<open>\<open>ActionRow.width\<close>: \<open>sum(child.width for child in self._children)\<close>.\<close>

definition width :: "('i \<Rightarrow> int) \<Rightarrow> 'i ui_ActionRow \<Rightarrow> int" where
  "width wd r = sum_list (map wd (children r))"

text \<open>
  Python's \<open>list.insert(index, x)\<close>: a negative index counts from the end, and an
  index out of range is clamped to the nearest end.
\<close>

definition list_insert :: "'a list \<Rightarrow> int \<Rightarrow> 'a \<Rightarrow> 'a list" where
  "list_insert xs index x =
     (let n = int (length xs);
          i = (if index < 0 then max 0 (index + n) else min index n)
      in take (nat i) xs @ x # drop (nat i) xs)"

text \<open>
  A method that mutates the row returns the outcome of the call together with the row
  as it is after the call, also when the call raises.
\<close>

definition insert_item ::
  "('i \<Rightarrow> int) \<Rightarrow> int \<Rightarrow> 'i \<Rightarrow> 'i ui_ActionRow \<Rightarrow> (error + unit) \<times> 'i ui_ActionRow" where
  "insert_item wd index item r =
     (if width wd r + wd item > 5 then (Inl ValueError, r)
      else (Inr (), r\<lparr>children := list_insert (children r) index item\<rparr>))"

definition append_item ::
  "('i \<Rightarrow> int) \<Rightarrow> 'i \<Rightarrow> 'i ui_ActionRow \<Rightarrow> (error + unit) \<times> 'i ui_ActionRow" where
  "append_item wd item r = insert_item wd (int (length (children r))) item r"

text \<open>
  The \<open>add_*\<close> helpers build an item from their keyword arguments and hand it to
  \<open>insert_item\<close> (\<open>add_button\<close>, \<open>add_url_button\<close>: at \<open>index\<close>, or at the end
  when \<open>index\<close> is \<open>None\<close>) or to \<open>append_item\<close> (the select and text input
  helpers). \<open>built\<close> is the outcome of the item's constructor, which runs first and
  may raise.
\<close>

definition add_at ::
  "('i \<Rightarrow> int) \<Rightarrow> int option \<Rightarrow> error + 'i \<Rightarrow> 'i ui_ActionRow
     \<Rightarrow> (error + unit) \<times> 'i ui_ActionRow" where
  "add_at wd index built r =
     (case built of
        Inl e \<Rightarrow> (Inl e, r)
      | Inr item \<Rightarrow>
          insert_item wd (case index of None \<Rightarrow> int (length (children r)) | Some i \<Rightarrow> i) item r)"

definition add_appended ::
  "('i \<Rightarrow> int) \<Rightarrow> error + 'i \<Rightarrow> 'i ui_ActionRow \<Rightarrow> (error + unit) \<times> 'i ui_ActionRow" where
  "add_appended wd built r =
     (case built of Inl e \<Rightarrow> (Inl e, r) | Inr item \<Rightarrow> append_item wd item r)"

text \<open>
  An argument of \<open>ActionRow(*components)\<close>: \<open>Comp\<close> is an object that passes the
  \<open>isinstance(component, Componentish)\<close> check and has a \<open>width\<close>, \<open>NoWidth\<close>
  one that passes the check (it has \<open>type\<close> and \<open>to_dict\<close>) and has no
  \<open>width\<close> attribute, such as a \<open>disnake.components.Button\<close>, and \<open>NonComp\<close>
  one that does not pass the check.
\<close>

datatype 'i seq_elem = Comp 'i | NoWidth | NonComp

text \<open>
  \<open>ActionRow.__init__\<close>: starts from no children and appends the arguments one by
  one; the first argument that is not a component raises \<open>TypeError\<close>, reading the
  \<open>width\<close> of one that has none raises \<open>AttributeError\<close>, the first append that
  fails raises \<open>ValueError\<close>, and then no row is constructed.
\<close>

fun init_loop :: "('i \<Rightarrow> int) \<Rightarrow> 'i seq_elem list \<Rightarrow> 'i ui_ActionRow \<Rightarrow> error + 'i ui_ActionRow" where
  "init_loop wd [] r = Inr r"
| "init_loop wd (NonComp # cs) r = Inl TypeError"
| "init_loop wd (NoWidth # cs) r = Inl AttributeError"
| "init_loop wd (Comp x # cs) r =
     (case append_item wd x r of
        (Inl e, _) \<Rightarrow> Inl e
      | (Inr _, r') \<Rightarrow> init_loop wd cs r')"

definition ActionRow_init :: "('i \<Rightarrow> int) \<Rightarrow> 'i seq_elem list \<Rightarrow> error + 'i ui_ActionRow" where
  "ActionRow_init wd components = init_loop wd components empty_row"

subsection \<open>The row-packing engine\<close>

text \<open>
  An entry of the sequence \<open>components_to_rows\<close> iterates over, as the loop's
  \<open>isinstance\<close> chain tells them apart: an instance of \<open>WrappedComponent\<close>, a
  pre-built \<open>ActionRow\<close>, a \<open>Sequence\<close> (whose elements become the arguments of
  \<open>ActionRow(*component)\<close>), or anything else. The type \<open>'r\<close> is what stands for a
  row: the row itself here, a reference to it where rows are objects in a store.
\<close>

datatype ('i, 'r) entry =
    Item 'i
  | Row 'r
  | Seq "'i seq_elem list"
  | Other

text \<open>
  The argument of \<open>components_to_rows\<close>: a sequence of entries (\<open>Many\<close>), or one
  object that is not a \<open>Sequence\<close> (\<open>Single\<close>: an item, a row, or anything else),
  which the function wraps in a one-element list.
\<close>

datatype ('i, 'r) single = SingleItem 'i | SingleRow 'r | SingleOther

datatype ('i, 'r) nested = Single "('i, 'r) single" | Many "('i, 'r) entry list"

fun single_entry :: "('i, 'r) single \<Rightarrow> ('i, 'r) entry" where
  "single_entry (SingleItem x) = Item x"
| "single_entry (SingleRow r) = Row r"
| "single_entry SingleOther = Other"

fun normalize :: "('i, 'r) nested \<Rightarrow> ('i, 'r) entry list" where
  "normalize (Many es) = es"
| "normalize (Single c) = [single_entry c]"

text \<open>
  One iteration of the loop, on the state \<open>(action_rows, auto_row)\<close>.
\<close>

definition seal :: "('i \<Rightarrow> int) \<Rightarrow> 'i ui_ActionRow list \<times> 'i ui_ActionRow
    \<Rightarrow> 'i ui_ActionRow list \<times> 'i ui_ActionRow" where
  "seal wd s =
     (case s of (action_rows, auto_row) \<Rightarrow>
        if width wd auto_row > 0 then (action_rows @ [auto_row], empty_row)
        else (action_rows, auto_row))"

fun pack_step :: "('i \<Rightarrow> int) \<Rightarrow> ('i, 'i ui_ActionRow) entry \<Rightarrow> 'i ui_ActionRow list \<times> 'i ui_ActionRow
    \<Rightarrow> error + ('i ui_ActionRow list \<times> 'i ui_ActionRow)" where
  "pack_step wd (Item x) (action_rows, auto_row) =
     (case append_item wd x auto_row of
        (Inr _, auto_row') \<Rightarrow> Inr (action_rows, auto_row')
      | (Inl ValueError, auto_row') \<Rightarrow>
          (case ActionRow_init wd [Comp x] of
             Inl e \<Rightarrow> Inl e
           | Inr fresh \<Rightarrow> Inr (action_rows @ [auto_row'], fresh))
      | (Inl e, _) \<Rightarrow> Inl e)"
| "pack_step wd (Row r) s =
     (case seal wd s of (action_rows, auto_row) \<Rightarrow> Inr (action_rows @ [r], auto_row))"
| "pack_step wd (Seq xs) s =
     (case seal wd s of (action_rows, auto_row) \<Rightarrow>
        (case ActionRow_init wd xs of
           Inl e \<Rightarrow> Inl e
         | Inr r \<Rightarrow> Inr (action_rows @ [r], auto_row)))"
| "pack_step wd Other s =
     (case seal wd s of (action_rows, auto_row) \<Rightarrow> Inl TypeError)"

fun pack_loop :: "('i \<Rightarrow> int) \<Rightarrow> ('i, 'i ui_ActionRow) entry list \<Rightarrow> 'i ui_ActionRow list \<times> 'i ui_ActionRow
    \<Rightarrow> error + ('i ui_ActionRow list \<times> 'i ui_ActionRow)" where
  "pack_loop wd [] s = Inr s"
| "pack_loop wd (c # cs) s =
     (case pack_step wd c s of Inl e \<Rightarrow> Inl e | Inr s' \<Rightarrow> pack_loop wd cs s')"

definition components_to_rows ::
  "('i \<Rightarrow> int) \<Rightarrow> ('i, 'i ui_ActionRow) nested \<Rightarrow> error + 'i ui_ActionRow list" where
  "components_to_rows wd components =
     (case pack_loop wd (normalize components) ([], empty_row) of
        Inl e \<Rightarrow> Inl e
      | Inr s \<Rightarrow> Inr (fst (seal wd s)))"

section \<open>Wire payloads (disnake/types/components.py)\<close>

text \<open>
  A wire object is a Python dict. The model keeps, for every key that one of the payload
  \<open>TypedDict\<close>s declares, whether the key is present (\<open>Some\<close>) or absent (\<open>None\<close>)
  and, when present, its value at the type the \<open>TypedDict\<close> declares for it. The
  \<open>emoji\<close> key holds the payload of a partial emoji, of a type \<open>'pe\<close> the sources
  do not contain.
\<close>

record 'pe SelectOptionPayload =
  o_label :: "string option"
  o_value :: "string option"
  o_description :: "string option"
  o_emoji :: "'pe option"
  o_default :: "bool option"

record 'pe payload_keys =
  p_type :: "int option"
  p_style :: "int option"
  p_label :: "string option"
  p_emoji :: "'pe option"
  p_custom_id :: "string option"
  p_url :: "string option"
  p_disabled :: "bool option"
  p_placeholder :: "string option"
  p_min_values :: "int option"
  p_max_values :: "int option"
  p_options :: "'pe SelectOptionPayload list option"
  p_channel_types :: "int list option"
  p_min_length :: "int option"
  p_max_length :: "int option"
  p_required :: "bool option"
  p_value :: "string option"

text \<open>The \<open>components\<close> key holds wire objects again, so it lives in the datatype.\<close>

datatype 'pe payload =
  Payload (keys: "'pe payload_keys") (p_components: "'pe payload list option")

definition no_keys :: "'pe payload_keys" where
  "no_keys = \<lparr>p_type = None, p_style = None, p_label = None, p_emoji = None,
     p_custom_id = None, p_url = None, p_disabled = None, p_placeholder = None,
     p_min_values = None, p_max_values = None, p_options = None, p_channel_types = None,
     p_min_length = None, p_max_length = None, p_required = None, p_value = None\<rparr>"

text \<open>\<open>d[key]\<close> raises \<open>KeyError\<close> on an absent key; \<open>d.get(key, default)\<close> does not.\<close>

definition subscript :: "'a option \<Rightarrow> error + 'a" where
  "subscript v = (case v of None \<Rightarrow> Inl KeyError | Some x \<Rightarrow> Inr x)"

definition get_default :: "'a option \<Rightarrow> 'a \<Rightarrow> 'a" where
  "get_default v d = (case v of None \<Rightarrow> d | Some x \<Rightarrow> x)"

text \<open>Sequencing of calls that may raise: the first exception ends the evaluation.\<close>

definition and_then :: "error + 'a \<Rightarrow> ('a \<Rightarrow> error + 'b) \<Rightarrow> error + 'b" where
  "and_then r f = (case r of Inl e \<Rightarrow> Inl e | Inr x \<Rightarrow> f x)"

section \<open>Collaborators outside the sources\<close>

text \<open>
  Modelled from the spec: the enums module (\<open>ComponentType\<close>, \<open>ButtonStyle\<close>,
  \<open>TextInputStyle\<close>, \<open>ChannelType\<close>, \<open>try_enum\<close>) is not part of the sources. The
  spec fixes the type tags 1 to 8; an enum member is represented by its integer
  \<open>value\<close>, so \<open>try_enum\<close> returns the member that has the given value.
\<close>

type_synonym ButtonStyle = int
type_synonym TextInputStyle = int
type_synonym ChannelType = int

definition try_enum :: "int \<Rightarrow> int" where
  "try_enum v = v"

definition ComponentType_action_row :: int where "ComponentType_action_row = 1"
definition ComponentType_button :: int where "ComponentType_button = 2"
definition ComponentType_string_select :: int where "ComponentType_string_select = 3"
definition ComponentType_text_input :: int where "ComponentType_text_input = 4"
definition ComponentType_user_select :: int where "ComponentType_user_select = 5"
definition ComponentType_role_select :: int where "ComponentType_role_select = 6"
definition ComponentType_mentionable_select :: int where "ComponentType_mentionable_select = 7"
definition ComponentType_channel_select :: int where "ComponentType_channel_select = 8"
definition ButtonStyle_url :: ButtonStyle where "ButtonStyle_url = 5"
definition TextInputStyle_short :: TextInputStyle where "TextInputStyle_short = 1"

text \<open>
  \<open>assert_never\<close> (disnake/utils.py) is not part of the sources. Both of its call
  sites go on after the call: \<open>_component_factory\<close> builds and returns a bare
  \<open>Component\<close>, and \<open>ActionRow.rows_from_message\<close> raises only \<open>if strict\<close>,
  as its docstring promises. The call therefore returns, and has no effect.
\<close>

definition assert_never :: "int \<Rightarrow> error + unit" where
  "assert_never arg = Inr ()"

text \<open>
  The partial emoji class (disnake/partial\_emoji.py) is not part of the sources; the
  spec treats emoji as opaque value objects with their own wire form. Its operations are
  parameters of the model: \<open>to_dict\<close>, \<open>from_dict\<close> (which may raise), \<open>from_str\<close>,
  \<open>_to_partial\<close>, and the truth value of an emoji object in \<open>if self.emoji:\<close>.
\<close>

record ('e, 'pe) emoji_ops =
  emoji_to_dict :: "'e \<Rightarrow> 'pe"
  emoji_from_dict :: "'pe \<Rightarrow> error + 'e"
  emoji_from_str :: "string \<Rightarrow> 'e"
  emoji_to_partial :: "'e \<Rightarrow> 'e"
  emoji_truthy :: "'e \<Rightarrow> bool"

section \<open>Components (disnake/components.py)\<close>

record 'e select_option =
  so_label :: string
  so_value :: string
  so_description :: "string option"
  so_emoji :: "'e option"
  so_default :: bool

record 'e url_button =
  ub_url :: string
  ub_disabled :: bool
  ub_label :: "string option"
  ub_emoji :: "'e option"

record 'e button =
  b_style :: ButtonStyle
  b_custom_id :: string
  b_disabled :: bool
  b_label :: "string option"
  b_emoji :: "'e option"

record base_select_menu =
  sm_custom_id :: string
  sm_placeholder :: "string option"
  sm_min_values :: int
  sm_max_values :: int
  sm_disabled :: bool

record 'e string_select_menu = base_select_menu +
  sm_options :: "'e select_option list"

record channel_select_menu = base_select_menu +
  sm_channel_types :: "ChannelType list option"

record text_input =
  ti_custom_id :: string
  ti_style :: TextInputStyle
  ti_label :: string
  ti_min_length :: "int option"
  ti_max_length :: "int option"
  ti_required :: bool
  ti_value :: "string option"
  ti_placeholder :: "string option"

text \<open>
  The classes of components. \<open>RawComponent\<close> is the bare \<open>Component\<close> that
  \<open>Component._raw_construct(type=as_enum)\<close> builds: it sets the slots of the class
  that occur among the keyword arguments, and \<open>Component\<close> has no slots, so the
  object carries no field.
\<close>

datatype 'e component =
    ActionRow "'e component list"
  | UrlButton "'e url_button"
  | Button "'e button"
  | StringSelectMenu "'e string_select_menu"
  | UserSelectMenu base_select_menu
  | RoleSelectMenu base_select_menu
  | MentionableSelectMenu base_select_menu
  | ChannelSelectMenu channel_select_menu
  | TextInput text_input
  | RawComponent

text \<open>Truth value of an optional string or list: \<open>None\<close> and the empty one are false.\<close>

definition truthy :: "'a list option \<Rightarrow> bool" where
  "truthy v = (case v of None \<Rightarrow> False | Some xs \<Rightarrow> xs \<noteq> [])"

definition emoji_is_truthy :: "('e, 'pe) emoji_ops \<Rightarrow> 'e option \<Rightarrow> bool" where
  "emoji_is_truthy E v = (case v of None \<Rightarrow> False | Some e \<Rightarrow> emoji_truthy E e)"

text \<open>
  \<open>try: emoji = PartialEmoji.from_dict(payload["emoji"])  except KeyError: emoji = None\<close>
\<close>

definition decode_emoji :: "('e, 'pe) emoji_ops \<Rightarrow> 'pe option \<Rightarrow> error + 'e option" where
  "decode_emoji E v =
     (case v of
        None \<Rightarrow> Inr None
      | Some pe \<Rightarrow>
          (case emoji_from_dict E pe of
             Inl KeyError \<Rightarrow> Inr None
           | Inl e \<Rightarrow> Inl e
           | Inr em \<Rightarrow> Inr (Some em)))"

subsection \<open>UrlButton and Button\<close>

definition UrlButton_to_dict :: "('e, 'pe) emoji_ops \<Rightarrow> 'e url_button \<Rightarrow> 'pe payload_keys" where
  "UrlButton_to_dict E self =
     (let payload = no_keys\<lparr>p_type := Some ComponentType_button, p_style := Some ButtonStyle_url,
            p_url := Some (ub_url self), p_disabled := Some (ub_disabled self)\<rparr>;
          payload = (if truthy (ub_label self) then payload\<lparr>p_label := ub_label self\<rparr> else payload);
          payload = (if emoji_is_truthy E (ub_emoji self)
                     then payload\<lparr>p_emoji := map_option (emoji_to_dict E) (ub_emoji self)\<rparr>
                     else payload)
      in payload)"

definition UrlButton_from_payload :: "('e, 'pe) emoji_ops \<Rightarrow> 'pe payload_keys \<Rightarrow> error + 'e url_button" where
  "UrlButton_from_payload E payload =
     and_then (decode_emoji E (p_emoji payload)) (\<lambda>emoji.
     and_then (subscript (p_url payload)) (\<lambda>url.
       Inr \<lparr>ub_url = url, ub_disabled = get_default (p_disabled payload) False,
            ub_label = p_label payload, ub_emoji = emoji\<rparr>))"

definition Button_to_dict :: "('e, 'pe) emoji_ops \<Rightarrow> 'e button \<Rightarrow> 'pe payload_keys" where
  "Button_to_dict E self =
     (let payload = no_keys\<lparr>p_type := Some 2, p_style := Some (b_style self),
            p_custom_id := Some (b_custom_id self), p_disabled := Some (b_disabled self)\<rparr>;
          payload = (if truthy (b_label self) then payload\<lparr>p_label := b_label self\<rparr> else payload);
          payload = (if emoji_is_truthy E (b_emoji self)
                     then payload\<lparr>p_emoji := map_option (emoji_to_dict E) (b_emoji self)\<rparr>
                     else payload)
      in payload)"

definition Button_from_payload :: "('e, 'pe) emoji_ops \<Rightarrow> 'pe payload_keys \<Rightarrow> error + 'e button" where
  "Button_from_payload E payload =
     and_then (decode_emoji E (p_emoji payload)) (\<lambda>emoji.
     and_then (subscript (p_style payload)) (\<lambda>style.
     and_then (subscript (p_custom_id payload)) (\<lambda>custom_id.
       Inr \<lparr>b_style = try_enum style, b_custom_id = custom_id,
            b_disabled = get_default (p_disabled payload) False,
            b_label = p_label payload, b_emoji = emoji\<rparr>)))"

subsection \<open>Select menus\<close>

text \<open>
  \<open>BaseSelectMenu.to_dict\<close> writes \<open>self.type.value\<close>, the tag of the subclass it
  runs for; \<open>BaseSelectMenu.from_payload\<close> reads the five fields all select menus
  share.
\<close>

definition BaseSelectMenu_to_dict :: "int \<Rightarrow> 'z base_select_menu_scheme \<Rightarrow> 'pe payload_keys" where
  "BaseSelectMenu_to_dict type_value self =
     (let payload = no_keys\<lparr>p_type := Some type_value, p_custom_id := Some (sm_custom_id self),
            p_min_values := Some (sm_min_values self), p_max_values := Some (sm_max_values self),
            p_disabled := Some (sm_disabled self)\<rparr>;
          payload = (if truthy (sm_placeholder self)
                     then payload\<lparr>p_placeholder := sm_placeholder self\<rparr> else payload)
      in payload)"

definition BaseSelectMenu_from_payload :: "'pe payload_keys \<Rightarrow> error + base_select_menu" where
  "BaseSelectMenu_from_payload payload =
     and_then (subscript (p_custom_id payload)) (\<lambda>custom_id.
       Inr \<lparr>sm_custom_id = custom_id, sm_placeholder = p_placeholder payload,
            sm_min_values = get_default (p_min_values payload) 1,
            sm_max_values = get_default (p_max_values payload) 1,
            sm_disabled = get_default (p_disabled payload) False\<rparr>)"

text \<open>
  \<open>SelectOption.__init__\<close>, with \<open>value\<close> \<open>None\<close> for \<open>MISSING\<close>. The \<open>emoji\<close>
  argument is a string, an emoji object, or something else.
\<close>

datatype 'e emoji_arg = EmojiStr string | EmojiTag 'e | NotEmoji

definition SelectOption_init ::
  "('e, 'pe) emoji_ops \<Rightarrow> string \<Rightarrow> string option \<Rightarrow> string option \<Rightarrow> 'e emoji_arg option \<Rightarrow> bool
     \<Rightarrow> error + 'e select_option" where
  "SelectOption_init E label val description emoji default' =
     and_then
       (case emoji of
          None \<Rightarrow> Inr None
        | Some (EmojiStr s) \<Rightarrow> Inr (Some (emoji_from_str E s))
        | Some (EmojiTag e) \<Rightarrow> Inr (Some (emoji_to_partial E e))
        | Some NotEmoji \<Rightarrow> Inl TypeError)
       (\<lambda>emoji.
          Inr \<lparr>so_label = label, so_value = get_default val label, so_description = description,
               so_emoji = emoji, so_default = default'\<rparr>)"

definition SelectOption_from_dict ::
  "('e, 'pe) emoji_ops \<Rightarrow> 'pe SelectOptionPayload \<Rightarrow> error + 'e select_option" where
  "SelectOption_from_dict E data =
     and_then (decode_emoji E (o_emoji data)) (\<lambda>emoji.
     and_then (subscript (o_label data)) (\<lambda>label.
     and_then (subscript (o_value data)) (\<lambda>val.
       SelectOption_init E label (Some val) (o_description data) (map_option EmojiTag emoji)
         (get_default (o_default data) False))))"

definition SelectOption_to_dict ::
  "('e, 'pe) emoji_ops \<Rightarrow> 'e select_option \<Rightarrow> 'pe SelectOptionPayload" where
  "SelectOption_to_dict E self =
     (let payload = \<lparr>o_label = Some (so_label self), o_value = Some (so_value self),
            o_description = None, o_emoji = None, o_default = Some (so_default self)\<rparr>;
          payload = (if emoji_is_truthy E (so_emoji self)
                     then payload\<lparr>o_emoji := map_option (emoji_to_dict E) (so_emoji self)\<rparr>
                     else payload);
          payload = (if truthy (so_description self)
                     then payload\<lparr>o_description := so_description self\<rparr> else payload)
      in payload)"

fun options_from_dicts ::
  "('e, 'pe) emoji_ops \<Rightarrow> 'pe SelectOptionPayload list \<Rightarrow> error + 'e select_option list" where
  "options_from_dicts E [] = Inr []"
| "options_from_dicts E (d # ds) =
     and_then (SelectOption_from_dict E d) (\<lambda>opt.
     and_then (options_from_dicts E ds) (\<lambda>opts. Inr (opt # opts)))"

definition StringSelectMenu_to_dict ::
  "('e, 'pe) emoji_ops \<Rightarrow> 'e string_select_menu \<Rightarrow> 'pe payload_keys" where
  "StringSelectMenu_to_dict E self =
     (let payload = BaseSelectMenu_to_dict ComponentType_string_select self;
          payload = payload\<lparr>p_type := Some ComponentType_string_select\<rparr>;
          payload = payload\<lparr>p_options := Some (map (SelectOption_to_dict E) (sm_options self))\<rparr>
      in payload)"

definition StringSelectMenu_from_payload ::
  "('e, 'pe) emoji_ops \<Rightarrow> 'pe payload_keys \<Rightarrow> error + 'e string_select_menu" where
  "StringSelectMenu_from_payload E payload =
     and_then (BaseSelectMenu_from_payload payload) (\<lambda>self.
     and_then (options_from_dicts E (get_default (p_options payload) [])) (\<lambda>opts.
       Inr (base_select_menu.extend self \<lparr>sm_options = opts\<rparr>)))"

definition ChannelSelectMenu_to_dict :: "channel_select_menu \<Rightarrow> 'pe payload_keys" where
  "ChannelSelectMenu_to_dict self =
     (let payload = BaseSelectMenu_to_dict ComponentType_channel_select self;
          payload = payload\<lparr>p_type := Some ComponentType_channel_select\<rparr>;
          payload = (if truthy (sm_channel_types self)
                     then payload\<lparr>p_channel_types := sm_channel_types self\<rparr> else payload)
      in payload)"

definition ChannelSelectMenu_from_payload :: "'pe payload_keys \<Rightarrow> error + channel_select_menu" where
  "ChannelSelectMenu_from_payload payload =
     (let channel_types = p_channel_types payload in
      and_then (BaseSelectMenu_from_payload payload) (\<lambda>self.
        Inr (base_select_menu.extend self
          \<lparr>sm_channel_types =
              (if truthy channel_types then map_option (map try_enum) channel_types else None)\<rparr>)))"

subsection \<open>TextInput\<close>

definition TextInput_to_dict :: "text_input \<Rightarrow> 'pe payload_keys" where
  "TextInput_to_dict self =
     (let payload = no_keys\<lparr>p_type := Some ComponentType_text_input, p_style := Some (ti_style self),
            p_label := Some (ti_label self), p_custom_id := Some (ti_custom_id self),
            p_required := Some (ti_required self)\<rparr>;
          payload = (if ti_placeholder self \<noteq> None
                     then payload\<lparr>p_placeholder := ti_placeholder self\<rparr> else payload);
          payload = (if ti_value self \<noteq> None then payload\<lparr>p_value := ti_value self\<rparr> else payload);
          payload = (if ti_min_length self \<noteq> None
                     then payload\<lparr>p_min_length := ti_min_length self\<rparr> else payload);
          payload = (if ti_max_length self \<noteq> None
                     then payload\<lparr>p_max_length := ti_max_length self\<rparr> else payload)
      in payload)"

definition TextInput_from_payload :: "'pe payload_keys \<Rightarrow> error + text_input" where
  "TextInput_from_payload payload =
     (let style = get_default (p_style payload) TextInputStyle_short in
      and_then (subscript (p_custom_id payload)) (\<lambda>custom_id.
      and_then (subscript (p_label payload)) (\<lambda>label.
        Inr \<lparr>ti_custom_id = custom_id, ti_style = try_enum style, ti_label = label,
             ti_min_length = p_min_length payload, ti_max_length = p_max_length payload,
             ti_required = get_default (p_required payload) True,
             ti_value = p_value payload, ti_placeholder = p_placeholder payload\<rparr>)))"

subsection \<open>The component factory and ActionRow\<close>

text \<open>
  \<open>_component_factory\<close> and \<open>ActionRow.from_payload\<close> call each other;
  \<open>factory_list\<close> is the list comprehension over the \<open>components\<close> key, which
  \<open>payload.get("components", ())\<close> takes as empty when the key is absent.
\<close>

fun component_factory :: "('e, 'pe) emoji_ops \<Rightarrow> 'pe payload \<Rightarrow> error + 'e component"
  and ActionRow_from_payload :: "('e, 'pe) emoji_ops \<Rightarrow> 'pe payload \<Rightarrow> error + 'e component"
  and factory_list :: "('e, 'pe) emoji_ops \<Rightarrow> 'pe payload list \<Rightarrow> error + 'e component list" where
  "component_factory E (Payload data cs) =
     and_then (subscript (p_type data)) (\<lambda>component_type.
       if component_type = 1 then ActionRow_from_payload E (Payload data cs)
       else if component_type = 2 then
         (if p_url data \<noteq> None
          then and_then (UrlButton_from_payload E data) (\<lambda>c. Inr (UrlButton c))
          else and_then (Button_from_payload E data) (\<lambda>c. Inr (Button c)))
       else if component_type = 3 then
         and_then (StringSelectMenu_from_payload E data) (\<lambda>c. Inr (StringSelectMenu c))
       else if component_type = 4 then
         and_then (TextInput_from_payload data) (\<lambda>c. Inr (TextInput c))
       else if component_type = 5 then
         and_then (BaseSelectMenu_from_payload data) (\<lambda>c. Inr (UserSelectMenu c))
       else if component_type = 6 then
         and_then (BaseSelectMenu_from_payload data) (\<lambda>c. Inr (RoleSelectMenu c))
       else if component_type = 7 then
         and_then (BaseSelectMenu_from_payload data) (\<lambda>c. Inr (MentionableSelectMenu c))
       else if component_type = 8 then
         and_then (ChannelSelectMenu_from_payload data) (\<lambda>c. Inr (ChannelSelectMenu c))
       else
         and_then (assert_never component_type) (\<lambda>_.
           let as_enum = try_enum component_type in Inr RawComponent))"
| "ActionRow_from_payload E (Payload data None) = Inr (ActionRow [])"
| "ActionRow_from_payload E (Payload data (Some ds)) =
     and_then (factory_list E ds) (\<lambda>cs. Inr (ActionRow cs))"
| "factory_list E [] = Inr []"
| "factory_list E (d # ds) =
     and_then (component_factory E d) (\<lambda>c.
     and_then (factory_list E ds) (\<lambda>cs. Inr (c # cs)))"

text \<open>
  \<open>to_dict\<close> as the call \<open>child.to_dict()\<close> dispatches it: each class's own method,
  and the base class's \<open>NotImplementedError\<close> for a bare \<open>Component\<close>.
\<close>

fun to_dict :: "('e, 'pe) emoji_ops \<Rightarrow> 'e component \<Rightarrow> error + 'pe payload"
  and to_dict_list :: "('e, 'pe) emoji_ops \<Rightarrow> 'e component list \<Rightarrow> error + 'pe payload list" where
  "to_dict E (ActionRow cs) =
     and_then (to_dict_list E cs) (\<lambda>ds.
       Inr (Payload (no_keys\<lparr>p_type := Some ComponentType_action_row\<rparr>) (Some ds)))"
| "to_dict E (UrlButton c) = Inr (Payload (UrlButton_to_dict E c) None)"
| "to_dict E (Button c) = Inr (Payload (Button_to_dict E c) None)"
| "to_dict E (StringSelectMenu c) = Inr (Payload (StringSelectMenu_to_dict E c) None)"
| "to_dict E (UserSelectMenu c) = Inr (Payload (BaseSelectMenu_to_dict ComponentType_user_select c) None)"
| "to_dict E (RoleSelectMenu c) = Inr (Payload (BaseSelectMenu_to_dict ComponentType_role_select c) None)"
| "to_dict E (MentionableSelectMenu c) =
     Inr (Payload (BaseSelectMenu_to_dict ComponentType_mentionable_select c) None)"
| "to_dict E (ChannelSelectMenu c) = Inr (Payload (ChannelSelectMenu_to_dict c) None)"
| "to_dict E (TextInput c) = Inr (Payload (TextInput_to_dict c) None)"
| "to_dict E RawComponent = Inl NotImplementedError"
| "to_dict_list E [] = Inr []"
| "to_dict_list E (c # cs) =
     and_then (to_dict E c) (\<lambda>d.
     and_then (to_dict_list E cs) (\<lambda>ds. Inr (d # ds)))"

text \<open>
  \<open>type(x).from_payload\<close>: the class method of the class of \<open>x\<close>. The select menu
  classes without a \<open>from_payload\<close> of their own inherit \<open>BaseSelectMenu\<close>'s, which
  constructs an instance of the class it is called on.
\<close>

fun from_payload_as :: "('e, 'pe) emoji_ops \<Rightarrow> 'e component \<Rightarrow> 'pe payload \<Rightarrow> error + 'e component" where
  "from_payload_as E (ActionRow _) w = ActionRow_from_payload E w"
| "from_payload_as E (UrlButton _) w = and_then (UrlButton_from_payload E (keys w)) (\<lambda>c. Inr (UrlButton c))"
| "from_payload_as E (Button _) w = and_then (Button_from_payload E (keys w)) (\<lambda>c. Inr (Button c))"
| "from_payload_as E (StringSelectMenu _) w =
     and_then (StringSelectMenu_from_payload E (keys w)) (\<lambda>c. Inr (StringSelectMenu c))"
| "from_payload_as E (UserSelectMenu _) w =
     and_then (BaseSelectMenu_from_payload (keys w)) (\<lambda>c. Inr (UserSelectMenu c))"
| "from_payload_as E (RoleSelectMenu _) w =
     and_then (BaseSelectMenu_from_payload (keys w)) (\<lambda>c. Inr (RoleSelectMenu c))"
| "from_payload_as E (MentionableSelectMenu _) w =
     and_then (BaseSelectMenu_from_payload (keys w)) (\<lambda>c. Inr (MentionableSelectMenu c))"
| "from_payload_as E (ChannelSelectMenu _) w =
     and_then (ChannelSelectMenu_from_payload (keys w)) (\<lambda>c. Inr (ChannelSelectMenu c))"
| "from_payload_as E (TextInput _) w =
     and_then (TextInput_from_payload (keys w)) (\<lambda>c. Inr (TextInput c))"
| "from_payload_as E RawComponent w = Inl NotImplementedError"

section \<open>Object identity\<close>

text \<open>
  \<open>SelectOption\<close> declares \<open>__slots__\<close>, \<open>__init__\<close>, \<open>__repr__\<close>, \<open>__str__\<close>,
  \<open>from_dict\<close> and \<open>to_dict\<close>, and no \<open>__eq__\<close>: \<open>a == b\<close> is the comparison it
  inherits from \<open>object\<close>, which holds when \<open>a\<close> and \<open>b\<close> are the same object.
  Objects live in a store, a reference is the position of its object in the store, and
  a constructor call puts a new object at the end.
\<close>

type_synonym ref = nat

definition new_object :: "'v list \<Rightarrow> 'v \<Rightarrow> ref \<times> 'v list" where
  "new_object store v = (length store, store @ [v])"

definition deref :: "'v list \<Rightarrow> ref \<Rightarrow> 'v option" where
  "deref store r = (if r < length store then Some (store ! r) else None)"

definition object_eq :: "ref \<Rightarrow> ref \<Rightarrow> bool" where
  "object_eq a b \<longleftrightarrow> a = b"

definition SelectOption_new ::
  "('e, 'pe) emoji_ops \<Rightarrow> 'e select_option list \<Rightarrow> string \<Rightarrow> string option \<Rightarrow> string option
     \<Rightarrow> 'e emoji_arg option \<Rightarrow> bool \<Rightarrow> error + (ref \<times> 'e select_option list)" where
  "SelectOption_new E store label val description emoji default' =
     and_then (SelectOption_init E label val description emoji default')
       (\<lambda>self. Inr (new_object store self))"

section \<open>The row-packing engine on rows as objects\<close>

text \<open>
  In the program a row is a mutable object: a pre-built row in the argument and every
  row in the result is a reference to an object, \<open>append_item\<close> changes the object
  it is called on, and \<open>ActionRow(...)\<close> makes a new one. Here the rows live in a
  store and the functions of the packing engine take the store and return it as it is
  after the call. A method call on the object at a reference runs the method on the
  object and puts the object back.
\<close>

definition call_on ::
  "ref \<Rightarrow> ('i ui_ActionRow \<Rightarrow> (error + unit) \<times> 'i ui_ActionRow) \<Rightarrow> 'i ui_ActionRow list
     \<Rightarrow> (error + unit) \<times> 'i ui_ActionRow list" where
  "call_on a method store =
     (case method (store ! a) of (outcome, r) \<Rightarrow> (outcome, store[a := r]))"

fun store_init_loop ::
  "('i \<Rightarrow> int) \<Rightarrow> 'i seq_elem list \<Rightarrow> ref \<Rightarrow> 'i ui_ActionRow list
     \<Rightarrow> (error + unit) \<times> 'i ui_ActionRow list" where
  "store_init_loop wd [] self store = (Inr (), store)"
| "store_init_loop wd (NonComp # cs) self store = (Inl TypeError, store)"
| "store_init_loop wd (NoWidth # cs) self store = (Inl AttributeError, store)"
| "store_init_loop wd (Comp x # cs) self store =
     (case call_on self (append_item wd x) store of
        (Inl e, store') \<Rightarrow> (Inl e, store')
      | (Inr _, store') \<Rightarrow> store_init_loop wd cs self store')"

definition store_ActionRow_init ::
  "('i \<Rightarrow> int) \<Rightarrow> 'i seq_elem list \<Rightarrow> 'i ui_ActionRow list
     \<Rightarrow> (error + ref) \<times> 'i ui_ActionRow list" where
  "store_ActionRow_init wd components store =
     (case new_object store empty_row of
        (self, store1) \<Rightarrow>
          (case store_init_loop wd components self store1 of
             (Inl e, store2) \<Rightarrow> (Inl e, store2)
           | (Inr _, store2) \<Rightarrow> (Inr self, store2)))"

text \<open>
  The loop state is \<open>(action_rows, auto_row)\<close>, both holding references.
\<close>

definition store_seal ::
  "('i \<Rightarrow> int) \<Rightarrow> ref list \<times> ref \<Rightarrow> 'i ui_ActionRow list
     \<Rightarrow> (ref list \<times> ref) \<times> 'i ui_ActionRow list" where
  "store_seal wd s store =
     (case s of (action_rows, auto_row) \<Rightarrow>
        if width wd (store ! auto_row) > 0
        then (case new_object store empty_row of
                (fresh, store') \<Rightarrow> ((action_rows @ [auto_row], fresh), store'))
        else ((action_rows, auto_row), store))"

fun store_pack_step ::
  "('i \<Rightarrow> int) \<Rightarrow> ('i, ref) entry \<Rightarrow> ref list \<times> ref \<Rightarrow> 'i ui_ActionRow list
     \<Rightarrow> (error + ref list \<times> ref) \<times> 'i ui_ActionRow list" where
  "store_pack_step wd (Item x) (action_rows, auto_row) store =
     (case call_on auto_row (append_item wd x) store of
        (Inr _, store') \<Rightarrow> (Inr (action_rows, auto_row), store')
      | (Inl ValueError, store') \<Rightarrow>
          (case store_ActionRow_init wd [Comp x] store' of
             (Inl e, store'') \<Rightarrow> (Inl e, store'')
           | (Inr fresh, store'') \<Rightarrow> (Inr (action_rows @ [auto_row], fresh), store''))
      | (Inl e, store') \<Rightarrow> (Inl e, store'))"
| "store_pack_step wd (Row r) s store =
     (case store_seal wd s store of
        ((action_rows, auto_row), store') \<Rightarrow> (Inr (action_rows @ [r], auto_row), store'))"
| "store_pack_step wd (Seq xs) s store =
     (case store_seal wd s store of
        ((action_rows, auto_row), store') \<Rightarrow>
          (case store_ActionRow_init wd xs store' of
             (Inl e, store'') \<Rightarrow> (Inl e, store'')
           | (Inr r, store'') \<Rightarrow> (Inr (action_rows @ [r], auto_row), store'')))"
| "store_pack_step wd Other s store =
     (case store_seal wd s store of (_, store') \<Rightarrow> (Inl TypeError, store'))"

fun store_pack_loop ::
  "('i \<Rightarrow> int) \<Rightarrow> ('i, ref) entry list \<Rightarrow> ref list \<times> ref \<Rightarrow> 'i ui_ActionRow list
     \<Rightarrow> (error + ref list \<times> ref) \<times> 'i ui_ActionRow list" where
  "store_pack_loop wd [] s store = (Inr s, store)"
| "store_pack_loop wd (c # cs) s store =
     (case store_pack_step wd c s store of
        (Inl e, store') \<Rightarrow> (Inl e, store')
      | (Inr s', store') \<Rightarrow> store_pack_loop wd cs s' store')"

definition store_components_to_rows ::
  "('i \<Rightarrow> int) \<Rightarrow> ('i, ref) nested \<Rightarrow> 'i ui_ActionRow list
     \<Rightarrow> (error + ref list) \<times> 'i ui_ActionRow list" where
  "store_components_to_rows wd components store =
     (case new_object store empty_row of
        (auto_row, store0) \<Rightarrow>
          (case store_pack_loop wd (normalize components) ([], auto_row) store0 of
             (Inl e, store') \<Rightarrow> (Inl e, store')
           | (Inr (action_rows, auto_row'), store') \<Rightarrow>
               (Inr (if width wd (store' ! auto_row') > 0 then action_rows @ [auto_row']
                     else action_rows), store')))"

text \<open>
  The argument of the packing engine with every reference replaced by the row it refers
  to in a store, and the references the argument holds.
\<close>

fun entry_rows :: "'i ui_ActionRow list \<Rightarrow> ('i, ref) entry \<Rightarrow> ('i, 'i ui_ActionRow) entry" where
  "entry_rows store (Item x) = Item x"
| "entry_rows store (Row r) = Row (store ! r)"
| "entry_rows store (Seq xs) = Seq xs"
| "entry_rows store Other = Other"

fun nested_rows :: "'i ui_ActionRow list \<Rightarrow> ('i, ref) nested \<Rightarrow> ('i, 'i ui_ActionRow) nested" where
  "nested_rows store (Single (SingleItem x)) = Single (SingleItem x)"
| "nested_rows store (Single (SingleRow r)) = Single (SingleRow (store ! r))"
| "nested_rows store (Single SingleOther) = Single SingleOther"
| "nested_rows store (Many es) = Many (map (entry_rows store) es)"

fun entry_refs :: "('i, ref) entry \<Rightarrow> ref list" where
  "entry_refs (Row r) = [r]"
| "entry_refs _ = []"

fun nested_refs :: "('i, ref) nested \<Rightarrow> ref list" where
  "nested_refs (Single (SingleRow r)) = [r]"
| "nested_refs (Single _) = []"
| "nested_refs (Many es) = concat (map entry_refs es)"

text \<open>
  The loop state read through the store, and what the loop keeps true of it: the auto
  row is an object the function made itself (\<open>n0\<close> objects were there before), and
  no sealed row is the auto row.
\<close>

definition state_rows ::
  "'i ui_ActionRow list \<Rightarrow> ref list \<times> ref \<Rightarrow> 'i ui_ActionRow list \<times> 'i ui_ActionRow" where
  "state_rows store s = (map (\<lambda>r. store ! r) (fst s), store ! snd s)"

definition state_ok :: "'i ui_ActionRow list \<Rightarrow> nat \<Rightarrow> ref list \<times> ref \<Rightarrow> bool" where
  "state_ok store n0 s \<longleftrightarrow>
     n0 \<le> snd s \<and> snd s < length store \<and> list_all (\<lambda>r. r < length store \<and> r \<noteq> snd s) (fst s)"

section \<open>Notions the properties of the packing engine are stated with\<close>

text \<open>
  The items among the arguments of \<open>ActionRow(*components)\<close>, the items an entry
  contributes, and the flattening of the input of \<open>components_to_rows\<close>, read off
  the input as it is given: a single item is itself, a row is its children, a sequence
  of entries is the concatenation of what its entries contribute. The two invariants of
  the loop state: every row within capacity, and every item of the auto row of positive
  width.
\<close>

fun comps :: "'i seq_elem list \<Rightarrow> 'i list" where
  "comps [] = []"
| "comps (Comp x # xs) = x # comps xs"
| "comps (NoWidth # xs) = comps xs"
| "comps (NonComp # xs) = comps xs"

definition cap_ok :: "('i \<Rightarrow> int) \<Rightarrow> 'i ui_ActionRow list \<times> 'i ui_ActionRow \<Rightarrow> bool" where
  "cap_ok wd s \<longleftrightarrow> (\<forall>r \<in> set (fst s). width wd r \<le> 5) \<and> width wd (snd s) \<le> 5"

fun entry_items :: "('i, 'i ui_ActionRow) entry \<Rightarrow> 'i list" where
  "entry_items (Item x) = [x]"
| "entry_items (Row r) = children r"
| "entry_items (Seq xs) = comps xs"
| "entry_items Other = []"

fun single_items :: "('i, 'i ui_ActionRow) single \<Rightarrow> 'i list" where
  "single_items (SingleItem x) = [x]"
| "single_items (SingleRow r) = children r"
| "single_items SingleOther = []"

fun flatten :: "('i, 'i ui_ActionRow) nested \<Rightarrow> 'i list" where
  "flatten (Single c) = single_items c"
| "flatten (Many es) = concat (map entry_items es)"

definition packed :: "'i ui_ActionRow list \<times> 'i ui_ActionRow \<Rightarrow> 'i list" where
  "packed s = concat (map children (fst s)) @ children (snd s)"

definition auto_pos :: "('i \<Rightarrow> int) \<Rightarrow> 'i ui_ActionRow list \<times> 'i ui_ActionRow \<Rightarrow> bool" where
  "auto_pos wd s \<longleftrightarrow> (\<forall>x \<in> set (children (snd s)). 0 < wd x)"

section \<open>Notions the properties of the codec are stated with\<close>

text \<open>
  A sample instance of the emoji operations, for evaluating the codec on concrete
  inputs: an emoji is its name, its wire form is the name, and every emoji is true.
\<close>

definition plain_emoji :: "(string, string) emoji_ops" where
  "plain_emoji = \<lparr>emoji_to_dict = (\<lambda>e. e), emoji_from_dict = Inr, emoji_from_str = (\<lambda>s. s),
     emoji_to_partial = (\<lambda>e. e), emoji_truthy = (\<lambda>_. True)\<rparr>"

text \<open>
  An emoji field survives encoding and decoding when it is absent, or true and decoded
  from its own wire form to itself (the emoji class is outside the sources, so this is
  asked of it). A select option also passes the decoded emoji through \<open>_to_partial\<close>.
\<close>

definition emoji_roundtrips :: "('e, 'pe) emoji_ops \<Rightarrow> 'e option \<Rightarrow> bool" where
  "emoji_roundtrips E v =
     (case v of
        None \<Rightarrow> True
      | Some e \<Rightarrow> emoji_truthy E e \<and> emoji_from_dict E (emoji_to_dict E e) = Inr e)"

definition option_emoji_roundtrips :: "('e, 'pe) emoji_ops \<Rightarrow> 'e option \<Rightarrow> bool" where
  "option_emoji_roundtrips E v =
     (case v of
        None \<Rightarrow> True
      | Some e \<Rightarrow> emoji_truthy E e \<and> emoji_from_dict E (emoji_to_dict E e) = Inr e
                  \<and> emoji_to_partial E e = e)"

text \<open>
  A component without an empty-but-set optional field: no label, placeholder or
  description is the empty string, \<open>channel_types\<close> is not the empty list, and every
  emoji survives its own codec. A bare \<open>Component\<close> is not one of the concrete
  variants.
\<close>

definition normal_option :: "('e, 'pe) emoji_ops \<Rightarrow> 'e select_option \<Rightarrow> bool" where
  "normal_option E opt \<longleftrightarrow>
     so_description opt \<noteq> Some [] \<and> option_emoji_roundtrips E (so_emoji opt)"

fun normal :: "('e, 'pe) emoji_ops \<Rightarrow> 'e component \<Rightarrow> bool" where
  "normal E (ActionRow cs) = list_all (normal E) cs"
| "normal E (UrlButton c) = (ub_label c \<noteq> Some [] \<and> emoji_roundtrips E (ub_emoji c))"
| "normal E (Button c) = (b_label c \<noteq> Some [] \<and> emoji_roundtrips E (b_emoji c))"
| "normal E (StringSelectMenu c) =
     (sm_placeholder c \<noteq> Some [] \<and> list_all (normal_option E) (sm_options c))"
| "normal E (UserSelectMenu c) = (sm_placeholder c \<noteq> Some [])"
| "normal E (RoleSelectMenu c) = (sm_placeholder c \<noteq> Some [])"
| "normal E (MentionableSelectMenu c) = (sm_placeholder c \<noteq> Some [])"
| "normal E (ChannelSelectMenu c) = (sm_placeholder c \<noteq> Some [] \<and> sm_channel_types c \<noteq> Some [])"
| "normal E (TextInput c) = True"
| "normal E RawComponent = False"

text \<open>
  The keys of a wire object, to say which keys a payload type requires and which it
  allows (disnake/types/components.py: a \<open>NotRequired\<close> key may be absent, and a
  key the \<open>TypedDict\<close> does not declare may not be present).
\<close>

datatype key =
    K_type | K_style | K_label | K_emoji | K_custom_id | K_url | K_disabled | K_placeholder
  | K_min_values | K_max_values | K_options | K_channel_types | K_min_length | K_max_length
  | K_required | K_value

fun has_key :: "'pe payload_keys \<Rightarrow> key \<Rightarrow> bool" where
  "has_key k K_type = (p_type k \<noteq> None)"
| "has_key k K_style = (p_style k \<noteq> None)"
| "has_key k K_label = (p_label k \<noteq> None)"
| "has_key k K_emoji = (p_emoji k \<noteq> None)"
| "has_key k K_custom_id = (p_custom_id k \<noteq> None)"
| "has_key k K_url = (p_url k \<noteq> None)"
| "has_key k K_disabled = (p_disabled k \<noteq> None)"
| "has_key k K_placeholder = (p_placeholder k \<noteq> None)"
| "has_key k K_min_values = (p_min_values k \<noteq> None)"
| "has_key k K_max_values = (p_max_values k \<noteq> None)"
| "has_key k K_options = (p_options k \<noteq> None)"
| "has_key k K_channel_types = (p_channel_types k \<noteq> None)"
| "has_key k K_min_length = (p_min_length k \<noteq> None)"
| "has_key k K_max_length = (p_max_length k \<noteq> None)"
| "has_key k K_required = (p_required k \<noteq> None)"
| "has_key k K_value = (p_value k \<noteq> None)"


definition has_keys :: "'pe payload_keys \<Rightarrow> key list \<Rightarrow> bool" where
  "has_keys k required = list_all (has_key k) required"





























text \<open>
  A decodable wire object: its tag is known, the keys its decoder subscripts are present
  (every other key may be absent), and the emoji class decodes the emoji payloads it
  holds.
\<close>

definition emoji_decodes :: "('e, 'pe) emoji_ops \<Rightarrow> 'pe option \<Rightarrow> bool" where
  "emoji_decodes E v = (case decode_emoji E v of Inl _ \<Rightarrow> False | Inr _ \<Rightarrow> True)"




section \<open>Properties of the row-packing engine\<close>

lemma append_item_eq:
  "append_item wd x r =
     (if width wd r + wd x > 5 then (Inl ValueError, r)
      else (Inr (), r\<lparr>children := children r @ [x]\<rparr>))"
  by (simp add: append_item_def insert_item_def list_insert_def)

lemma width_append: "width wd (r\<lparr>children := children r @ [x]\<rparr>) = width wd r + wd x"
  by (simp add: width_def)

lemma width_empty_row: "width wd empty_row = 0"
  by (simp add: width_def empty_row_def)

lemma sum_list_take_drop:
  fixes wd :: "'a \<Rightarrow> int"
  shows "sum_list (map wd (take n xs)) + sum_list (map wd (drop n xs)) = sum_list (map wd xs)"
  by (metis append_take_drop_id map_append sum_list_append)

lemma sum_list_list_insert:
  fixes wd :: "'a \<Rightarrow> int"
  shows "sum_list (map wd (list_insert xs i x)) = sum_list (map wd xs) + wd x"
proof -
  have "sum_list (map wd (take n xs @ x # drop n xs)) = sum_list (map wd xs) + wd x" for n
    using sum_list_take_drop[of wd n xs] by simp
  then show ?thesis unfolding list_insert_def Let_def by blast
qed

lemma width_insert_item:
  "insert_item wd i x r = (Inr u, r') \<Longrightarrow> width wd r' = width wd r + wd x \<and> width wd r' \<le> 5"
  by (auto simp: insert_item_def width_def sum_list_list_insert split: if_splits)

lemma init_loop_capacity:
  "init_loop wd xs r = Inr r' \<Longrightarrow> width wd r \<le> 5 \<Longrightarrow> width wd r' \<le> 5"
proof (induction wd xs r rule: init_loop.induct)
  case (4 wd x cs r)
  then show ?case
    by (auto simp: append_item_eq width_append split: if_splits)
qed simp_all

lemma init_loop_children:
  "init_loop wd xs r = Inr r' \<Longrightarrow> children r' = children r @ comps xs"
proof (induction wd xs r rule: init_loop.induct)
  case (4 wd x cs r)
  then show ?case
    by (auto simp: append_item_eq split: if_splits)
qed simp_all

lemma ActionRow_init_capacity: "ActionRow_init wd xs = Inr r \<Longrightarrow> width wd r \<le> 5"
  unfolding ActionRow_init_def by (erule init_loop_capacity) (simp add: width_empty_row)

lemma ActionRow_init_children: "ActionRow_init wd xs = Inr r \<Longrightarrow> children r = comps xs"
  unfolding ActionRow_init_def by (drule init_loop_children) (simp add: empty_row_def)

lemma seal_cap_ok: "cap_ok wd s \<Longrightarrow> cap_ok wd (seal wd s)"
  by (auto simp: cap_ok_def seal_def width_empty_row split: prod.splits)

lemma pack_step_cap_ok:
  assumes "pack_step wd c s = Inr s'" "cap_ok wd s" "\<forall>r. c = Row r \<longrightarrow> width wd r \<le> 5"
  shows "cap_ok wd s'"
proof (cases c)
  case (Item x)
  obtain A a where s: "s = (A, a)" by (cases s)
  from assms Item s show ?thesis
    by (auto simp: append_item_eq width_append cap_ok_def
        dest: ActionRow_init_capacity split: if_splits sum.splits)
next
  case (Row r)
  with assms seal_cap_ok[OF assms(2)] show ?thesis
    by (auto simp: cap_ok_def split: prod.splits)
next
  case (Seq xs)
  with assms seal_cap_ok[OF assms(2)] show ?thesis
    by (auto simp: cap_ok_def dest: ActionRow_init_capacity split: prod.splits sum.splits)
next
  case Other
  with assms show ?thesis by (auto split: prod.splits)
qed

lemma pack_loop_cap_ok:
  "pack_loop wd cs s = Inr s' \<Longrightarrow> cap_ok wd s \<Longrightarrow>
   \<forall>r. Row r \<in> set cs \<longrightarrow> width wd r \<le> 5 \<Longrightarrow> cap_ok wd s'"
proof (induction cs arbitrary: s)
  case Nil
  then show ?case by simp
next
  case (Cons c cs)
  from Cons.prems(1) obtain s1 where s1: "pack_step wd c s = Inr s1" "pack_loop wd cs s1 = Inr s'"
    by (auto split: sum.splits)
  have "cap_ok wd s1" using s1(1) Cons.prems(2,3) by (auto intro: pack_step_cap_ok)
  then show ?case using Cons.IH[OF s1(2)] Cons.prems(3) by auto
qed

text \<open>
  Claim C2. Every row in the list \<open>components_to_rows\<close> returns has a total width of
  at most 5, provided the pre-built rows passed in already respect the capacity (every
  row built through \<open>ActionRow(...)\<close> and \<open>insert_item\<close> does, by
  \<open>ActionRow_init_capacity\<close> and \<open>width_insert_item\<close>).
\<close>

theorem components_to_rows_capacity:
  assumes "components_to_rows wd cs = Inr rows"
      and "\<forall>r. Row r \<in> set (normalize cs) \<longrightarrow> width wd r \<le> 5"
  shows "\<forall>r \<in> set rows. width wd r \<le> 5"
proof -
  from assms(1) obtain s where s: "pack_loop wd (normalize cs) ([], empty_row) = Inr s"
    and rows: "rows = fst (seal wd s)"
    by (auto simp: components_to_rows_def split: sum.splits)
  have "cap_ok wd ([], empty_row)" by (simp add: cap_ok_def width_empty_row)
  from pack_loop_cap_ok[OF s this assms(2)] have "cap_ok wd (seal wd s)" by (rule seal_cap_ok)
  then show ?thesis by (simp add: rows cap_ok_def)
qed

theorem components_to_rows_capacity_witness:
  "components_to_rows (\<lambda>_. 1) (Many [Item (11::nat), Item 12, Row \<lparr>children = [13, 14]\<rparr>, Item 15])
       = Inr [\<lparr>children = [11, 12]\<rparr>, \<lparr>children = [13, 14]\<rparr>, \<lparr>children = [15]\<rparr>]
   \<and> width (\<lambda>_. 1) \<lparr>children = [11, 12 :: nat]\<rparr> \<le> 5
   \<and> width (\<lambda>_. 1) \<lparr>children = [13, 14 :: nat]\<rparr> \<le> 5
   \<and> width (\<lambda>_. 1) \<lparr>children = [15 :: nat]\<rparr> \<le> 5"
proof -
  let ?inp = "Many [Item (11::nat), Item 12, Row \<lparr>children = [13, 14]\<rparr>, Item 15]"
  have r: "components_to_rows (\<lambda>_. 1) ?inp
       = Inr [\<lparr>children = [11, 12]\<rparr>, \<lparr>children = [13, 14]\<rparr>, \<lparr>children = [15]\<rparr>]"
    by (simp add: components_to_rows_def append_item_eq width_def seal_def empty_row_def)
  have h: "\<forall>r. Row r \<in> set (normalize ?inp) \<longrightarrow> width (\<lambda>_. 1) r \<le> 5"
    by (simp add: width_def)
  from components_to_rows_capacity[OF r h] r show ?thesis by simp
qed

lemma sum_list_widths_nonneg:
  fixes wd :: "'i \<Rightarrow> int"
  shows "\<forall>x \<in> set xs. 0 < wd x \<Longrightarrow> 0 \<le> sum_list (map wd xs)"
  by (induction xs) auto

lemma pos_sum_list_empty:
  fixes wd :: "'i \<Rightarrow> int"
  assumes "\<forall>x \<in> set xs. 0 < wd x" "sum_list (map wd xs) \<le> 0"
  shows "xs = []"
proof (cases xs)
  case (Cons y ys)
  have "0 \<le> sum_list (map wd ys)" using assms(1) Cons by (intro sum_list_widths_nonneg) simp
  moreover have "0 < wd y" using assms(1) Cons by simp
  ultimately show ?thesis using assms(2) Cons by simp
qed simp

lemma seal_auto_pos:
  assumes "auto_pos wd s"
  shows "snd (seal wd s) = empty_row" and "packed (seal wd s) = packed s"
proof -
  obtain A a where s: "s = (A, a)" by (cases s)
  have e: "\<not> 0 < width wd a \<Longrightarrow> children a = []"
    using assms pos_sum_list_empty[of "children a" wd] by (auto simp: s auto_pos_def width_def)
  then have "\<not> 0 < width wd a \<Longrightarrow> a = empty_row" by (simp add: empty_row_def)
  then show "snd (seal wd s) = empty_row" by (simp add: s seal_def)
  show "packed (seal wd s) = packed s" by (simp add: s seal_def packed_def empty_row_def)
qed

lemma pack_step_packed:
  assumes "pack_step wd c s = Inr s'" "auto_pos wd s" "\<forall>x. c = Item x \<longrightarrow> 0 < wd x"
  shows "auto_pos wd s' \<and> packed s' = packed s @ entry_items c"
proof (cases c)
  case (Item x)
  obtain A a where s: "s = (A, a)" by (cases s)
  from assms Item s show ?thesis
    by (auto simp: append_item_eq auto_pos_def packed_def
        dest!: ActionRow_init_children split: if_splits sum.splits)
next
  case (Row r)
  obtain B b where sl: "seal wd s = (B, b)" by (cases "seal wd s")
  from seal_auto_pos[OF assms(2)] sl have "b = empty_row" "packed (B, b) = packed s" by simp_all
  with assms(1) Row sl show ?thesis
    by (auto simp: auto_pos_def packed_def empty_row_def)
next
  case (Seq xs)
  obtain B b where sl: "seal wd s = (B, b)" by (cases "seal wd s")
  from seal_auto_pos[OF assms(2)] sl have "b = empty_row" "packed (B, b) = packed s" by simp_all
  with assms(1) Seq sl show ?thesis
    by (auto simp: auto_pos_def packed_def empty_row_def dest!: ActionRow_init_children split: sum.splits)
next
  case Other
  with assms show ?thesis by (auto split: prod.splits)
qed

lemma pack_loop_packed:
  "pack_loop wd cs s = Inr s' \<Longrightarrow> auto_pos wd s \<Longrightarrow> \<forall>x. Item x \<in> set cs \<longrightarrow> 0 < wd x \<Longrightarrow>
   auto_pos wd s' \<and> packed s' = packed s @ concat (map entry_items cs)"
proof (induction cs arbitrary: s)
  case Nil
  then show ?case by simp
next
  case (Cons c cs)
  from Cons.prems(1) obtain s1 where s1: "pack_step wd c s = Inr s1" "pack_loop wd cs s1 = Inr s'"
    by (auto split: sum.splits)
  have a: "auto_pos wd s1 \<and> packed s1 = packed s @ entry_items c"
    using s1(1) Cons.prems(2,3) by (intro pack_step_packed) auto
  then show ?case using Cons.IH[OF s1(2)] Cons.prems(3) by auto
qed

lemma pack_loop_append:
  "pack_loop wd (xs @ ys) s =
     (case pack_loop wd xs s of Inl e \<Rightarrow> Inl e | Inr s' \<Rightarrow> pack_loop wd ys s')"
  by (induction xs arbitrary: s) (auto split: sum.splits)

lemma seal_prefix:
  "seal wd (A, a) = (A @ fst (seal wd ([], a)), snd (seal wd ([], a)))"
  by (simp add: seal_def)

lemma pack_step_prefix:
  "pack_step wd c (A, a) =
     (case pack_step wd c ([], a) of Inl e \<Rightarrow> Inl e | Inr (B, b) \<Rightarrow> Inr (A @ B, b))"
  by (cases c) (auto simp: seal_def split: sum.splits prod.splits error.splits)

lemma pack_loop_prefix:
  "pack_loop wd cs (A, a) =
     (case pack_loop wd cs ([], a) of Inl e \<Rightarrow> Inl e | Inr (B, b) \<Rightarrow> Inr (A @ B, b))"
proof (induction cs arbitrary: A a)
  case Nil
  then show ?case by simp
next
  case (Cons c cs)
  show ?case
  proof (cases "pack_step wd c ([], a)")
    case (Inl e)
    then show ?thesis using pack_step_prefix[of wd c A a] by simp
  next
    case (Inr s1)
    obtain B b where s1: "s1 = (B, b)" by (cases s1)
    have 1: "pack_step wd c (A, a) = Inr (A @ B, b)"
      using pack_step_prefix[of wd c A a] Inr s1 by simp
    show ?thesis
      using Cons.IH[of "A @ B" b] Cons.IH[of B b] Inr s1 1
      by (auto split: sum.splits)
  qed
qed

lemma pack_loop_auto_pos:
  "pack_loop wd cs s = Inr s' \<Longrightarrow> auto_pos wd s \<Longrightarrow> \<forall>x. 0 < wd x \<Longrightarrow> auto_pos wd s'"
  using pack_loop_packed[of wd cs s s'] by simp

lemma components_to_rows_Many:
  "components_to_rows wd (Many cs) =
     (case pack_loop wd cs ([], empty_row) of Inl e \<Rightarrow> Inl e | Inr s \<Rightarrow> Inr (fst (seal wd s)))"
  by (simp add: components_to_rows_def)

lemma pack_loop_barrier:
  assumes pos: "\<forall>x. 0 < wd x"
      and st: "\<And>s. pack_step wd c s = (case seal wd s of (A, a) \<Rightarrow>
                 (case built of Inl e \<Rightarrow> Inl e | Inr r \<Rightarrow> Inr (A @ [r], a)))"
  shows "components_to_rows wd (Many (pre @ c # post)) =
     (case components_to_rows wd (Many pre) of
        Inl e \<Rightarrow> Inl e
      | Inr A \<Rightarrow>
          (case built of
             Inl e \<Rightarrow> Inl e
           | Inr r \<Rightarrow>
               (case components_to_rows wd (Many post) of
                  Inl e \<Rightarrow> Inl e
                | Inr B \<Rightarrow> Inr (A @ r # B))))"
proof (cases "pack_loop wd pre ([], empty_row)")
  case (Inl e)
  then show ?thesis by (simp add: components_to_rows_Many pack_loop_append)
next
  case (Inr s)
  have "auto_pos wd ([], empty_row)" by (simp add: auto_pos_def empty_row_def)
  from pack_loop_auto_pos[OF Inr this pos] have "auto_pos wd s" .
  then have e: "snd (seal wd s) = empty_row" by (rule seal_auto_pos)
  define A where "A = fst (seal wd s)"
  have sl: "seal wd s = (A, empty_row)" using e by (simp add: A_def prod_eq_iff)
  show ?thesis
  proof (cases built)
    case (Inl e)
    then show ?thesis
      using Inr sl by (simp add: components_to_rows_Many pack_loop_append st)
  next
    case (Inr r) note b = this
    have "pack_loop wd post (A @ [r], empty_row) =
       (case pack_loop wd post ([], empty_row) of Inl e \<Rightarrow> Inl e | Inr (B, b) \<Rightarrow> Inr ((A @ [r]) @ B, b))"
      by (rule pack_loop_prefix)
    then show ?thesis
      using \<open>pack_loop wd pre ([], empty_row) = Inr s\<close> sl b
      by (auto simp: components_to_rows_Many pack_loop_append st seal_def split: sum.splits prod.splits)
  qed
qed

text \<open>
  Claim C6. A pre-built row or a literal sequence among the entries is never merged with
  the auto-filled row: the result is the packing of the entries before it, then the
  explicit row on its own, then the packing of the entries after it.
\<close>

theorem explicit_group_not_merged:
  assumes "\<forall>x. 0 < wd x"
  shows "components_to_rows wd (Many (pre @ Row r # post)) =
           (case components_to_rows wd (Many pre) of
              Inl e \<Rightarrow> Inl e
            | Inr A \<Rightarrow>
                (case components_to_rows wd (Many post) of
                   Inl e \<Rightarrow> Inl e
                 | Inr B \<Rightarrow> Inr (A @ r # B)))
       \<and> components_to_rows wd (Many (pre @ Seq xs # post)) =
           (case components_to_rows wd (Many pre) of
              Inl e \<Rightarrow> Inl e
            | Inr A \<Rightarrow>
                (case ActionRow_init wd xs of
                   Inl e \<Rightarrow> Inl e
                 | Inr r \<Rightarrow>
                     (case components_to_rows wd (Many post) of
                        Inl e \<Rightarrow> Inl e
                      | Inr B \<Rightarrow> Inr (A @ r # B))))"
proof
  have "\<And>s. pack_step wd (Row r) s = (case seal wd s of (A, a) \<Rightarrow>
                 (case Inr r of Inl e \<Rightarrow> Inl e | Inr r \<Rightarrow> Inr (A @ [r], a)))"
    by simp
  from pack_loop_barrier[OF assms this, of pre post] 
  show "components_to_rows wd (Many (pre @ Row r # post)) =
           (case components_to_rows wd (Many pre) of
              Inl e \<Rightarrow> Inl e
            | Inr A \<Rightarrow>
                (case components_to_rows wd (Many post) of
                   Inl e \<Rightarrow> Inl e
                 | Inr B \<Rightarrow> Inr (A @ r # B)))" by (simp cong: sum.case_cong)
  have "\<And>s. pack_step wd (Seq xs) s = (case seal wd s of (A, a) \<Rightarrow>
                 (case ActionRow_init wd xs of Inl e \<Rightarrow> Inl e | Inr r \<Rightarrow> Inr (A @ [r], a)))"
    by simp
  from pack_loop_barrier[OF assms this, of pre post] 
  show "components_to_rows wd (Many (pre @ Seq xs # post)) =
           (case components_to_rows wd (Many pre) of
              Inl e \<Rightarrow> Inl e
            | Inr A \<Rightarrow>
                (case ActionRow_init wd xs of
                   Inl e \<Rightarrow> Inl e
                 | Inr r \<Rightarrow>
                     (case components_to_rows wd (Many post) of
                        Inl e \<Rightarrow> Inl e
                      | Inr B \<Rightarrow> Inr (A @ r # B))))" .
qed

lemma pack_example_pre:
  "components_to_rows (\<lambda>_. 1) (Many [Item (11::nat), Item 12]) = Inr [\<lparr>children = [11, 12]\<rparr>]"
  by (simp add: components_to_rows_def append_item_eq width_def seal_def empty_row_def)

lemma pack_example_post:
  "components_to_rows (\<lambda>_. 1) (Many [Item (15::nat)]) = Inr [\<lparr>children = [15]\<rparr>]"
  by (simp add: components_to_rows_def append_item_eq width_def seal_def empty_row_def)

theorem explicit_group_not_merged_witness:
  "(\<forall>x::nat. 0 < (\<lambda>_. 1::int) x)
   \<and> components_to_rows (\<lambda>_. 1) (Many [Item (11::nat), Item 12, Row \<lparr>children = [13, 14]\<rparr>, Item 15])
       = Inr [\<lparr>children = [11, 12]\<rparr>, \<lparr>children = [13, 14]\<rparr>, \<lparr>children = [15]\<rparr>]
   \<and> components_to_rows (\<lambda>_. 1) (Many [Item (11::nat), Item 12, Seq [Comp 13, Comp 14], Item 15])
       = Inr [\<lparr>children = [11, 12]\<rparr>, \<lparr>children = [13, 14]\<rparr>, \<lparr>children = [15]\<rparr>]"
proof -
  have h: "\<forall>x::nat. 0 < (\<lambda>_. 1::int) x" by simp
  have i: "ActionRow_init (\<lambda>_. 1) [Comp (13::nat), Comp 14] = Inr \<lparr>children = [13, 14]\<rparr>"
    by (simp add: ActionRow_init_def append_item_eq width_def empty_row_def)
  show ?thesis
    using explicit_group_not_merged[OF h, of "[Item 11, Item 12]" "\<lparr>children = [13, 14]\<rparr>" "[Item 15]" "[Comp 13, Comp 14]"]
    by (simp add: pack_example_pre pack_example_post i)
qed

lemma init_loop_width:
  "init_loop wd xs r = Inr r' \<Longrightarrow> width wd r' = width wd r + sum_list (map wd (comps xs))"
  by (drule init_loop_children) (simp add: width_def)

lemma comps_map_Comp: "comps (map Comp xs) = xs"
  by (induction xs) simp_all

lemma init_loop_items_error:
  "init_loop wd (map Comp xs) r = Inl e \<Longrightarrow> e = ValueError"
  by (induction xs arbitrary: r) (auto simp: append_item_eq split: if_splits)

lemma ActionRow_init_over_capacity:
  assumes "5 < sum_list (map wd xs)"
  shows "ActionRow_init wd (map Comp xs) = Inl ValueError"
proof (cases "ActionRow_init wd (map Comp xs)")
  case (Inl e)
  then show ?thesis by (auto simp: ActionRow_init_def dest: init_loop_items_error)
next
  case (Inr r)
  from ActionRow_init_capacity[OF Inr] ActionRow_init_children[OF Inr] assms
  show ?thesis by (simp add: width_def comps_map_Comp)
qed

text \<open>
  Claim C7. A single item that does not fit into the auto row any more seals that row
  and starts a fresh one holding just the item, without an error; a literal sequence of
  items whose total width exceeds 5 makes the constructor, and with it
  \<open>components_to_rows\<close>, raise \<open>ValueError\<close>.
\<close>

theorem overflow_seals_or_raises:
  "(5 < width wd auto_row + wd x \<and> wd x \<le> 5 \<longrightarrow>
      pack_step wd (Item x) (action_rows, auto_row)
        = Inr (action_rows @ [auto_row], \<lparr>children = [x]\<rparr>))
   \<and> (5 < sum_list (map wd xs) \<longrightarrow>
        ActionRow_init wd (map Comp xs) = Inl ValueError
      \<and> components_to_rows wd (Many [Seq (map Comp xs)]) = Inl ValueError
      \<and> (\<exists>e. components_to_rows wd (Many (pre @ Seq (map Comp xs) # post)) = Inl e))"
proof (intro conjI impI)
  assume "5 < width wd auto_row + wd x \<and> wd x \<le> 5"
  then show "pack_step wd (Item x) (action_rows, auto_row)
        = Inr (action_rows @ [auto_row], \<lparr>children = [x]\<rparr>)"
    by (simp add: append_item_eq ActionRow_init_def width_def empty_row_def)
next
  assume a: "5 < sum_list (map wd xs)"
  then show i: "ActionRow_init wd (map Comp xs) = Inl ValueError"
    by (rule ActionRow_init_over_capacity)
  then show "components_to_rows wd (Many [Seq (map Comp xs)]) = Inl ValueError"
    by (simp add: components_to_rows_def split: prod.splits)
  have "pack_step wd (Seq (map Comp xs)) s = Inl ValueError" for s
    using i by (simp split: prod.splits)
  then show "\<exists>e. components_to_rows wd (Many (pre @ Seq (map Comp xs) # post)) = Inl e"
    by (auto simp: components_to_rows_Many pack_loop_append split: sum.splits)
qed

theorem overflow_seals_or_raises_witness:
  "components_to_rows (\<lambda>_. 1) (Many (map Item [11, 12, 13, 14, 15, 16 :: nat]))
     = Inr [\<lparr>children = [11, 12, 13, 14, 15]\<rparr>, \<lparr>children = [16]\<rparr>]
   \<and> components_to_rows (\<lambda>_. 1) (Many [Seq (map Comp [11, 12, 13, 14, 15, 16 :: nat])])
     = Inl ValueError"
proof -
  let ?wd = "\<lambda>_::nat. 1::int"
  let ?five = "\<lparr>children = [11, 12, 13, 14, 15 :: nat]\<rparr>"
  have five: "pack_loop ?wd (map Item [11, 12, 13, 14, 15]) ([], empty_row) = Inr ([], ?five)"
    by (simp add: append_item_eq width_def empty_row_def)
  have h1: "5 < width ?wd ?five + ?wd 16 \<and> ?wd 16 \<le> 5" by (simp add: width_def)
  have h2: "5 < sum_list (map ?wd [11, 12, 13, 14, 15, 16])" by simp
  note t = overflow_seals_or_raises[of ?wd ?five 16 "[]" "[11, 12, 13, 14, 15, 16]" "[]" "[]"]
  from t h1 have s: "pack_step ?wd (Item 16) ([], ?five) = Inr ([?five], \<lparr>children = [16]\<rparr>)"
    by simp
  have "pack_loop ?wd (map Item [11, 12, 13, 14, 15] @ [Item 16]) ([], empty_row)
          = Inr ([?five], \<lparr>children = [16]\<rparr>)"
    unfolding pack_loop_append five using s by simp
  then have 1: "components_to_rows ?wd (Many (map Item [11, 12, 13, 14, 15, 16]))
     = Inr [?five, \<lparr>children = [16]\<rparr>]"
    by (simp add: components_to_rows_def seal_def width_def)
  from t h2 have 2: "components_to_rows ?wd (Many [Seq (map Comp [11, 12, 13, 14, 15, 16])]) = Inl ValueError"
    by blast
  from 1 2 show ?thesis by blast
qed

text \<open>
  Claim C10. When the item's width added to the row's width exceeds 5, \<open>insert_item\<close>,
  \<open>append_item\<close> and the \<open>add_*\<close> helpers raise \<open>ValueError\<close> and the row
  after the call is the row before it.
\<close>

theorem failed_insert_no_effect:
  assumes "5 < width wd r + wd item"
  shows "insert_item wd i item r = (Inl ValueError, r)
       \<and> append_item wd item r = (Inl ValueError, r)
       \<and> add_at wd index (Inr item) r = (Inl ValueError, r)
       \<and> add_appended wd (Inr item) r = (Inl ValueError, r)"
  using assms by (simp add: insert_item_def append_item_def add_at_def add_appended_def)

theorem failed_insert_no_effect_witness:
  "5 < width (\<lambda>_. 1) \<lparr>children = [11, 12, 13, 14, 15 :: nat]\<rparr> + (\<lambda>_. 1) (16 :: nat)
   \<and> insert_item (\<lambda>_. 1) 2 16 \<lparr>children = [11, 12, 13, 14, 15 :: nat]\<rparr>
       = (Inl ValueError, \<lparr>children = [11, 12, 13, 14, 15]\<rparr>)
   \<and> children (snd (append_item (\<lambda>_. 1) 16 \<lparr>children = [11, 12, 13, 14, 15 :: nat]\<rparr>))
       = [11, 12, 13, 14, 15]"
proof -
  have h: "5 < width (\<lambda>_. 1) \<lparr>children = [11, 12, 13, 14, 15 :: nat]\<rparr> + (\<lambda>_. 1) (16 :: nat)"
    by (simp add: width_def)
  from failed_insert_no_effect[OF h, where i = 2 and index = None] h show ?thesis by simp
qed

subsection \<open>The engine on rows as objects\<close>

lemma call_on_append_item:
  "call_on a (append_item wd x) st =
     (if width wd (st ! a) + wd x > 5 then (Inl ValueError, st)
      else (Inr (), st[a := (st ! a)\<lparr>children := children (st ! a) @ [x]\<rparr>]))"
  by (simp add: call_on_def append_item_eq)

lemma store_init_loop_sim:
  assumes "a < length st"
  shows "case store_init_loop wd xs a st of
           (Inl e, st') \<Rightarrow> init_loop wd xs (st ! a) = Inl e
         | (Inr u, st') \<Rightarrow> init_loop wd xs (st ! a) = Inr (st' ! a) \<and> length st' = length st
                             \<and> (\<forall>b. b \<noteq> a \<longrightarrow> st' ! b = st ! b)"
  using assms
proof (induction wd xs a st rule: store_init_loop.induct)
  case (4 wd x cs self store)
  show ?case
  proof (cases "width wd (store ! self) + wd x > 5")
    case True
    then show ?thesis by (simp add: call_on_append_item append_item_eq)
  next
    case False
    let ?st1 = "store[self := (store ! self)\<lparr>children := children (store ! self) @ [x]\<rparr>]"
    have c: "call_on self (append_item wd x) store = (Inr (), ?st1)"
      using False by (simp add: call_on_append_item)
    have l: "self < length ?st1" using 4(2) by simp
    from 4(1)[OF c[symmetric] refl l] have ih:
      "case store_init_loop wd cs self ?st1 of
           (Inl e, st') \<Rightarrow> init_loop wd cs (?st1 ! self) = Inl e
         | (Inr u, st') \<Rightarrow> init_loop wd cs (?st1 ! self) = Inr (st' ! self) \<and> length st' = length ?st1
                             \<and> (\<forall>b. b \<noteq> self \<longrightarrow> st' ! b = ?st1 ! b)"
      by simp
    show ?thesis using ih c False 4(2)
      by (auto simp: append_item_eq split: prod.splits sum.splits)
  qed
qed simp_all

lemma store_ActionRow_init_sim:
  "case store_ActionRow_init wd xs st of
     (Inl e, st') \<Rightarrow> ActionRow_init wd xs = Inl e
   | (Inr a, st') \<Rightarrow> ActionRow_init wd xs = Inr (st' ! a) \<and> a = length st
                      \<and> length st' = Suc (length st) \<and> (\<forall>b < length st. st' ! b = st ! b)"
proof -
  let ?st1 = "st @ [empty_row]"
  have l: "length st < length ?st1" by simp
  from store_init_loop_sim[OF l, of wd xs] show ?thesis
    by (auto simp: store_ActionRow_init_def ActionRow_init_def new_object_def nth_append
        split: prod.splits sum.splits)
qed

lemma state_ok_D:
  assumes "state_ok st n0 (rows, auto)"
  shows "n0 \<le> auto" "auto < length st" "\<forall>r \<in> set rows. r < length st \<and> r \<noteq> auto"
    "\<forall>r \<in> set rows. r < Suc (length st)"
  using assms by (auto simp: state_ok_def list_all_iff)

lemma state_ok_I:
  "n0 \<le> auto \<Longrightarrow> auto < length st \<Longrightarrow> \<forall>r \<in> set rows. r < length st \<and> r \<noteq> auto \<Longrightarrow>
   state_ok st n0 (rows, auto)"
  by (auto simp: state_ok_def list_all_iff)

lemma store_seal_sim:
  assumes ok: "state_ok st n0 (rows, auto)"
      and sl: "store_seal wd (rows, auto) st = ((rows', auto'), st')"
  shows "seal wd (state_rows st (rows, auto)) = state_rows st' (rows', auto')"
    and "state_ok st' n0 (rows', auto')"
    and "\<forall>b < length st. st' ! b = st ! b"
    and "length st \<le> length st'"
    and "children (st' ! auto') = [] \<or> (rows' = rows \<and> auto' = auto)"
proof -
  note d = state_ok_D[OF ok]
  show "seal wd (state_rows st (rows, auto)) = state_rows st' (rows', auto')"
    using sl d by (auto simp: store_seal_def seal_def state_rows_def new_object_def nth_append
        split: if_splits)
  show "state_ok st' n0 (rows', auto')"
    using sl d by (fastforce simp: store_seal_def new_object_def less_Suc_eq split: if_splits intro!: state_ok_I)
  show "\<forall>b < length st. st' ! b = st ! b"
    using sl by (auto simp: store_seal_def new_object_def nth_append split: if_splits)
  show "length st \<le> length st'"
    using sl by (auto simp: store_seal_def new_object_def split: if_splits)
  show "children (st' ! auto') = [] \<or> (rows' = rows \<and> auto' = auto)"
    using sl by (auto simp: store_seal_def new_object_def empty_row_def split: if_splits)
qed

lemma store_pack_step_sim:
  assumes ok: "state_ok st n0 s" and refs: "\<forall>r \<in> set (entry_refs c). r < n0"
  shows "case store_pack_step wd c s st of
           (Inl e, st') \<Rightarrow> pack_step wd (entry_rows st c) (state_rows st s) = Inl e
         | (Inr s', st') \<Rightarrow> pack_step wd (entry_rows st c) (state_rows st s) = Inr (state_rows st' s')
               \<and> state_ok st' n0 s' \<and> (\<forall>b < n0. st' ! b = st ! b) \<and> length st \<le> length st'"
proof -
  obtain rows auto where s: "s = (rows, auto)" by (cases s)
  note d = state_ok_D[OF ok[unfolded s]]
  show ?thesis
  proof (cases c)
    case (Item x)
    show ?thesis
    proof (cases "width wd (st ! auto) + wd x > 5")
      case False
      then show ?thesis using d Item s
        by (auto simp: call_on_append_item append_item_eq state_rows_def
            intro!: state_ok_I nth_equalityI)
    next
      case True
      from store_ActionRow_init_sim[of wd "[Comp x]" st] True d Item s show ?thesis
        by (auto simp: call_on_append_item append_item_eq state_rows_def
            split: prod.splits sum.splits intro!: state_ok_I)
    qed
  next
    case (Row r)
    obtain rows' auto' st' where sl: "store_seal wd (rows, auto) st = ((rows', auto'), st')"
      by (metis prod.exhaust)
    note ss = store_seal_sim[OF ok[unfolded s] sl]
    note d' = state_ok_D[OF ss(2)]
    have r: "r < n0" using refs Row by simp
    have "state_ok st' n0 (rows' @ [r], auto')"
      using d' r ss(4) d by (intro state_ok_I) auto
    moreover have "st' ! r = st ! r" using ss(3) r d by auto
    ultimately show ?thesis using Row s sl ss(1,3,4) d
      by (auto simp: state_rows_def split: prod.splits)
  next
    case (Seq xs)
    obtain rows' auto' st' where sl: "store_seal wd (rows, auto) st = ((rows', auto'), st')"
      by (metis prod.exhaust)
    note ss = store_seal_sim[OF ok[unfolded s] sl]
    note d' = state_ok_D[OF ss(2)]
    from store_ActionRow_init_sim[of wd xs st'] Seq s sl ss(1,3,4) d d' show ?thesis
      by (auto simp: state_rows_def split: prod.splits sum.splits intro!: state_ok_I)
  next
    case Other
    obtain rows' auto' st' where sl: "store_seal wd (rows, auto) st = ((rows', auto'), st')"
      by (metis prod.exhaust)
    note ss = store_seal_sim[OF ok[unfolded s] sl]
    show ?thesis using Other s sl ss(1)
      by (auto simp: state_rows_def split: prod.splits)
  qed
qed

lemma entry_rows_cong:
  "\<forall>r \<in> set (entry_refs c). r < n0 \<Longrightarrow> \<forall>b < n0. st' ! b = st ! b \<Longrightarrow>
   entry_rows st' c = entry_rows st c"
  by (cases c) simp_all

lemma store_pack_loop_sim:
  assumes "state_ok st n0 s" "\<forall>c \<in> set cs. \<forall>r \<in> set (entry_refs c). r < n0"
  shows "case store_pack_loop wd cs s st of
           (Inl e, st') \<Rightarrow> pack_loop wd (map (entry_rows st) cs) (state_rows st s) = Inl e
         | (Inr s', st') \<Rightarrow> pack_loop wd (map (entry_rows st) cs) (state_rows st s) = Inr (state_rows st' s')
               \<and> state_ok st' n0 s' \<and> (\<forall>b < n0. st' ! b = st ! b) \<and> length st \<le> length st'"
  using assms
proof (induction cs arbitrary: s st)
  case Nil
  then show ?case by simp
next
  case (Cons c cs)
  have refs: "\<forall>r \<in> set (entry_refs c). r < n0" using Cons.prems(2) by simp
  note step = store_pack_step_sim[OF Cons.prems(1) refs, of wd]
  obtain res st1 where r: "store_pack_step wd c s st = (res, st1)" by (cases "store_pack_step wd c s st")
  show ?case
  proof (cases res)
    case (Inl e)
    with step r show ?thesis by simp
  next
    case (Inr s1)
    with step r have s1: "pack_step wd (entry_rows st c) (state_rows st s) = Inr (state_rows st1 s1)"
      "state_ok st1 n0 s1" "\<forall>b < n0. st1 ! b = st ! b" "length st \<le> length st1"
      by simp_all
    have cs: "\<forall>c \<in> set cs. \<forall>r \<in> set (entry_refs c). r < n0" using Cons.prems(2) by simp
    have m: "map (entry_rows st1) cs = map (entry_rows st) cs"
      using cs s1(3) by (auto intro!: entry_rows_cong)
    note ih = Cons.IH[OF s1(2) cs, unfolded m]
    obtain res2 st2 where r2: "store_pack_loop wd cs s1 st1 = (res2, st2)"
      by (cases "store_pack_loop wd cs s1 st1")
    show ?thesis
    proof (cases res2)
      case (Inl e)
      with ih r2 r Inr s1(1) show ?thesis by simp
    next
      case (Inr s2)
      with ih r2 have "pack_loop wd (map (entry_rows st) cs) (state_rows st1 s1) = Inr (state_rows st2 s2)"
        "state_ok st2 n0 s2" "\<forall>b < n0. st2 ! b = st1 ! b" "length st1 \<le> length st2"
        by simp_all
      with r2 r \<open>res = Inr s1\<close> Inr s1 show ?thesis by simp
    qed
  qed
qed

lemma normalize_rows: "normalize (nested_rows st cs) = map (entry_rows st) (normalize cs)"
  by (induction st cs rule: nested_rows.induct) simp_all

lemma normalize_refs: "concat (map entry_refs (normalize cs)) = nested_refs cs"
  by (induction cs rule: nested_refs.induct) simp_all

lemma nested_rows_cong:
  assumes "\<forall>r \<in> set (nested_refs cs). r < n0" "\<forall>b < n0. st' ! b = st ! b"
  shows "nested_rows st' cs = nested_rows st cs"
  using assms
proof (induction st cs rule: nested_rows.induct)
  case (4 store es)
  then have "map (entry_rows st') es = map (entry_rows store) es"
    by (auto intro!: entry_rows_cong[where ?n0.0 = n0])
  then show ?case by simp
qed simp_all

lemma store_components_to_rows_sim:
  assumes "\<forall>r \<in> set (nested_refs cs). r < length st"
  shows "case store_components_to_rows wd cs st of
           (Inl e, st') \<Rightarrow> components_to_rows wd (nested_rows st cs) = Inl e
         | (Inr rows, st') \<Rightarrow> components_to_rows wd (nested_rows st cs) = Inr (map (\<lambda>r. st' ! r) rows)
               \<and> (\<forall>b < length st. st' ! b = st ! b) \<and> length st \<le> length st'"
proof -
  let ?st0 = "st @ [empty_row]"
  let ?n0 = "length st"
  have ok: "state_ok ?st0 ?n0 ([], length st)" by (simp add: state_ok_def)
  have refs: "\<forall>c \<in> set (normalize cs). \<forall>r \<in> set (entry_refs c). r < ?n0"
  proof (intro ballI)
    fix c r assume "c \<in> set (normalize cs)" "r \<in> set (entry_refs c)"
    then have "r \<in> set (concat (map entry_refs (normalize cs)))" by auto
    then show "r < ?n0" using assms by (simp add: normalize_refs)
  qed
  have v: "map (entry_rows ?st0) (normalize cs) = map (entry_rows st) (normalize cs)"
    using refs by (auto intro!: entry_rows_cong[where ?n0.0 = ?n0] simp: nth_append)
  have s0: "state_rows ?st0 ([], length st) = ([], empty_row)" by (simp add: state_rows_def)
  note sim = store_pack_loop_sim[OF ok refs, of wd, unfolded v s0]
  obtain res st1 where r: "store_pack_loop wd (normalize cs) ([], length st) ?st0 = (res, st1)"
    by (cases "store_pack_loop wd (normalize cs) ([], length st) ?st0")
  show ?thesis
  proof (cases res)
    case (Inl e)
    with sim r show ?thesis
      by (simp add: store_components_to_rows_def components_to_rows_def new_object_def normalize_rows)
  next
    case (Inr s1)
    obtain rows auto where s1: "s1 = (rows, auto)" by (cases s1)
    from sim r Inr s1 have p: "pack_loop wd (map (entry_rows st) (normalize cs)) ([], empty_row)
        = Inr (map (\<lambda>r. st1 ! r) rows, st1 ! auto)"
      "\<forall>b < length st. st1 ! b = ?st0 ! b" "length ?st0 \<le> length st1"
      by (simp_all add: state_rows_def)
    have f: "\<forall>b < length st. st1 ! b = st ! b" using p(2) by (simp add: nth_append)
    show ?thesis using r Inr s1 p(1,3) f
      by (simp add: store_components_to_rows_def components_to_rows_def new_object_def normalize_rows
          seal_def)
  qed
qed

lemma flatten_normalize: "flatten cs = concat (map entry_items (normalize cs))"
proof (cases cs)
  case (Single c)
  then show ?thesis by (cases c) simp_all
qed simp

lemma Item_in_flatten: "Item x \<in> set (normalize cs) \<Longrightarrow> x \<in> set (flatten cs)"
  unfolding flatten_normalize by (force simp: image_iff)

lemma components_to_rows_flatten:
  assumes "components_to_rows wd cs = Inr rows"
      and "\<forall>x \<in> set (flatten cs). 0 < wd x"
  shows "concat (map children rows) = flatten cs"
proof -
  from assms(1) obtain s where s: "pack_loop wd (normalize cs) ([], empty_row) = Inr s"
    and rows: "rows = fst (seal wd s)"
    by (auto simp: components_to_rows_def split: sum.splits)
  have pos: "\<forall>x. Item x \<in> set (normalize cs) \<longrightarrow> 0 < wd x"
    using assms(2) by (auto dest: Item_in_flatten)
  have "auto_pos wd ([], empty_row)" by (simp add: auto_pos_def empty_row_def)
  from pack_loop_packed[OF s this pos]
  have p: "auto_pos wd s" "packed s = flatten cs"
    by (simp_all add: packed_def empty_row_def flatten_normalize)
  from seal_auto_pos[OF p(1)] have "packed (fst (seal wd s), empty_row) = packed s"
    by (metis prod.collapse)
  then show ?thesis using p(2) by (simp add: rows packed_def empty_row_def)
qed

text \<open>
  Claim C5. With the rows as objects in a store: when \<open>components_to_rows\<close> returns,
  the children of the returned rows, concatenated in order, are the flattening of the
  input in order; the run changes no object that was there before it, and a second run
  on the same input returns rows equal to those of the first. The references of the
  input refer to objects of the store, and items have a positive width (1 for every
  item class of the sources).
\<close>
theorem components_to_rows_order:
  assumes run: "store_components_to_rows wd cs store = (Inr rows, store')"
      and refs: "\<forall>r \<in> set (nested_refs cs). r < length store"
      and pos: "\<forall>x \<in> set (flatten (nested_rows store cs)). 0 < wd x"
  shows "concat (map (\<lambda>r. children (store' ! r)) rows) = flatten (nested_rows store cs)
       \<and> (\<forall>a < length store. store' ! a = store ! a)
       \<and> (\<exists>rows2 store2. store_components_to_rows wd cs store' = (Inr rows2, store2)
             \<and> map (\<lambda>r. store2 ! r) rows2 = map (\<lambda>r. store' ! r) rows)"
proof -
  from store_components_to_rows_sim[OF refs, of wd] run
  have pure: "components_to_rows wd (nested_rows store cs) = Inr (map (\<lambda>r. store' ! r) rows)"
    and frame: "\<forall>b < length store. store' ! b = store ! b"
    and len: "length store \<le> length store'"
    by simp_all
  from components_to_rows_flatten[OF pure pos]
  have order: "concat (map (\<lambda>r. children (store' ! r)) rows) = flatten (nested_rows store cs)"
    by (simp add: comp_def)
  have refs': "\<forall>r \<in> set (nested_refs cs). r < length store'" using refs len by auto
  have same: "nested_rows store' cs = nested_rows store cs"
    using refs frame by (rule nested_rows_cong)
  obtain res store2 where r2: "store_components_to_rows wd cs store' = (res, store2)"
    by (cases "store_components_to_rows wd cs store'")
  from store_components_to_rows_sim[OF refs', of wd] r2 pure same
  obtain rows2 where "res = Inr rows2" "map (\<lambda>r. store2 ! r) rows2 = map (\<lambda>r. store' ! r) rows"
    by (cases res) simp_all
  then have "\<exists>rows2 store2. store_components_to_rows wd cs store' = (Inr rows2, store2)
             \<and> map (\<lambda>r. store2 ! r) rows2 = map (\<lambda>r. store' ! r) rows"
    using r2 by simp
  with order frame show ?thesis by (intro conjI)
qed

theorem components_to_rows_order_witness:
  "store_components_to_rows (\<lambda>_. 1)
      (Many [Item (11::nat), Item 12, Row 0, Seq [Comp 15]]) [\<lparr>children = [13, 14]\<rparr>]
     = (Inr [1, 0, 3],
        [\<lparr>children = [13, 14]\<rparr>, \<lparr>children = [11, 12]\<rparr>, \<lparr>children = []\<rparr>, \<lparr>children = [15]\<rparr>])
   \<and> flatten (nested_rows [\<lparr>children = [13, 14]\<rparr>] (Many [Item (11::nat), Item 12, Row 0, Seq [Comp 15]]))
       = [11, 12, 13, 14, 15]
   \<and> concat (map (\<lambda>r. children
         ([\<lparr>children = [13, 14 :: nat]\<rparr>, \<lparr>children = [11, 12]\<rparr>, \<lparr>children = []\<rparr>, \<lparr>children = [15]\<rparr>] ! r))
         [1, 0, 3])
       = [11, 12, 13, 14, 15]
   \<and> store_components_to_rows (\<lambda>_. 1) (Single (SingleItem (11::nat))) []
       = (Inr [0], [\<lparr>children = [11]\<rparr>])
   \<and> concat (map (\<lambda>r. children ([\<lparr>children = [11 :: nat]\<rparr>] ! r)) [0])
       = flatten (nested_rows [] (Single (SingleItem 11)))"
proof -
  let ?wd = "\<lambda>_::nat. 1::int"
  let ?cs = "Many [Item (11::nat), Item 12, Row 0, Seq [Comp 15]]"
  let ?st = "[\<lparr>children = [13, 14 :: nat]\<rparr>]"
  let ?st' = "[\<lparr>children = [13, 14 :: nat]\<rparr>, \<lparr>children = [11, 12]\<rparr>, \<lparr>children = []\<rparr>, \<lparr>children = [15]\<rparr>]"
  have run: "store_components_to_rows ?wd ?cs ?st = (Inr [1, 0, 3], ?st')"
    by (simp add: store_components_to_rows_def store_ActionRow_init_def store_seal_def
        call_on_append_item new_object_def width_def empty_row_def)
  have refs: "\<forall>r \<in> set (nested_refs ?cs). r < length ?st" by simp
  have fl: "flatten (nested_rows ?st ?cs) = [11, 12, 13, 14, 15]" by simp
  have pos: "\<forall>x \<in> set (flatten (nested_rows ?st ?cs)). 0 < ?wd x" by simp
  from components_to_rows_order[OF run refs pos]
  have 1: "concat (map (\<lambda>r. children (?st' ! r)) [1, 0, 3]) = flatten (nested_rows ?st ?cs)"
    by (rule conjunct1)
  let ?c1 = "Single (SingleItem (11::nat)) :: (nat, ref) nested"
  have run1: "store_components_to_rows ?wd ?c1 [] = (Inr [0], [\<lparr>children = [11]\<rparr>])"
    by (simp add: store_components_to_rows_def call_on_append_item new_object_def width_def empty_row_def)
  have refs1: "\<forall>r \<in> set (nested_refs ?c1). r < length ([] :: nat ui_ActionRow list)" by simp
  have pos1: "\<forall>x \<in> set (flatten (nested_rows [] ?c1)). 0 < ?wd x" by simp
  from components_to_rows_order[OF run1 refs1 pos1]
  have 2: "concat (map (\<lambda>r. children ([\<lparr>children = [11 :: nat]\<rparr>] ! r)) [0]) = flatten (nested_rows [] ?c1)"
    by (rule conjunct1)
  from run fl 1 run1 2 show ?thesis by (simp only: simp_thms)
qed

section \<open>Properties of the component codec\<close>

lemmas codec_simps =
  and_then_def subscript_def get_default_def try_enum_def truthy_def emoji_is_truthy_def
  decode_emoji_def no_keys_def Let_def
  ComponentType_action_row_def ComponentType_button_def ComponentType_string_select_def
  ComponentType_text_input_def ComponentType_user_select_def ComponentType_role_select_def
  ComponentType_mentionable_select_def ComponentType_channel_select_def
  ButtonStyle_url_def TextInputStyle_short_def

lemma Button_roundtrip:
  "b_label c \<noteq> Some [] \<Longrightarrow> emoji_roundtrips E (b_emoji c) \<Longrightarrow>
   Button_from_payload E (Button_to_dict E c) = Inr c"
  by (cases c) (auto simp: Button_from_payload_def Button_to_dict_def emoji_roundtrips_def
      codec_simps split: option.splits)

lemma UrlButton_roundtrip:
  "ub_label c \<noteq> Some [] \<Longrightarrow> emoji_roundtrips E (ub_emoji c) \<Longrightarrow>
   UrlButton_from_payload E (UrlButton_to_dict E c) = Inr c"
  by (cases c) (auto simp: UrlButton_from_payload_def UrlButton_to_dict_def emoji_roundtrips_def
      codec_simps split: option.splits)

lemma BaseSelectMenu_roundtrip:
  "sm_placeholder c \<noteq> Some [] \<Longrightarrow>
   BaseSelectMenu_from_payload (BaseSelectMenu_to_dict t c) = Inr (base_select_menu.truncate c)"
  by (cases c) (auto simp: BaseSelectMenu_from_payload_def BaseSelectMenu_to_dict_def
      base_select_menu.truncate_def codec_simps split: option.splits)

lemma SelectOption_roundtrip:
  "normal_option E opt \<Longrightarrow> SelectOption_from_dict E (SelectOption_to_dict E opt) = Inr opt"
  by (cases opt) (auto simp: SelectOption_from_dict_def SelectOption_to_dict_def SelectOption_init_def
      normal_option_def option_emoji_roundtrips_def codec_simps split: option.splits)

lemma options_roundtrip:
  "list_all (normal_option E) opts \<Longrightarrow>
   options_from_dicts E (map (SelectOption_to_dict E) opts) = Inr opts"
  by (induction opts) (simp_all add: SelectOption_roundtrip and_then_def)

lemma StringSelectMenu_roundtrip:
  "sm_placeholder c \<noteq> Some [] \<Longrightarrow> list_all (normal_option E) (sm_options c) \<Longrightarrow>
   StringSelectMenu_from_payload E (StringSelectMenu_to_dict E c) = Inr c"
  by (cases c) (auto simp: StringSelectMenu_from_payload_def StringSelectMenu_to_dict_def
      BaseSelectMenu_from_payload_def BaseSelectMenu_to_dict_def options_roundtrip
      base_select_menu.extend_def codec_simps split: option.splits)

lemma map_try_enum: "map try_enum xs = xs"
  by (induction xs) (simp_all add: try_enum_def)

lemma ChannelSelectMenu_roundtrip:
  "sm_placeholder c \<noteq> Some [] \<Longrightarrow> sm_channel_types c \<noteq> Some [] \<Longrightarrow>
   ChannelSelectMenu_from_payload (ChannelSelectMenu_to_dict c) = Inr c"
  by (cases c) (auto simp: ChannelSelectMenu_from_payload_def ChannelSelectMenu_to_dict_def
      BaseSelectMenu_from_payload_def BaseSelectMenu_to_dict_def map_try_enum
      base_select_menu.extend_def codec_simps split: option.splits)

lemma TextInput_roundtrip:
  "TextInput_from_payload (TextInput_to_dict c) = Inr c"
  by (cases c) (auto simp: TextInput_from_payload_def TextInput_to_dict_def codec_simps
      split: option.splits)

lemma to_dict_tags:
  "p_type (UrlButton_to_dict E u) = Some 2" "p_url (UrlButton_to_dict E u) \<noteq> None"
  "p_type (Button_to_dict E b) = Some 2" "p_url (Button_to_dict E b) = None"
  "p_type (StringSelectMenu_to_dict E s) = Some 3"
  "p_type (BaseSelectMenu_to_dict t m) = Some t"
  "p_type (ChannelSelectMenu_to_dict ch) = Some 8"
  "p_type (TextInput_to_dict ti) = Some 4"
  by (simp_all add: UrlButton_to_dict_def Button_to_dict_def StringSelectMenu_to_dict_def
      BaseSelectMenu_to_dict_def ChannelSelectMenu_to_dict_def TextInput_to_dict_def codec_simps)


lemma factory_url_button:
  "p_type k = Some 2 \<Longrightarrow> p_url k \<noteq> None \<Longrightarrow>
   component_factory E (Payload k cs) = and_then (UrlButton_from_payload E k) (\<lambda>c. Inr (UrlButton c))"
  by (simp add: and_then_def subscript_def)

lemma factory_button:
  "p_type k = Some 2 \<Longrightarrow> p_url k = None \<Longrightarrow>
   component_factory E (Payload k cs) = and_then (Button_from_payload E k) (\<lambda>c. Inr (Button c))"
  by (simp add: and_then_def subscript_def)

lemma factory_string_select:
  "p_type k = Some 3 \<Longrightarrow>
   component_factory E (Payload k cs) =
     and_then (StringSelectMenu_from_payload E k) (\<lambda>c. Inr (StringSelectMenu c))"
  by (simp add: and_then_def subscript_def)

lemma factory_text_input:
  "p_type k = Some 4 \<Longrightarrow>
   component_factory E (Payload k cs) = and_then (TextInput_from_payload k) (\<lambda>c. Inr (TextInput c))"
  by (simp add: and_then_def subscript_def)

lemma factory_user_select:
  "p_type k = Some 5 \<Longrightarrow>
   component_factory E (Payload k cs) = and_then (BaseSelectMenu_from_payload k) (\<lambda>c. Inr (UserSelectMenu c))"
  by (simp add: and_then_def subscript_def)

lemma factory_role_select:
  "p_type k = Some 6 \<Longrightarrow>
   component_factory E (Payload k cs) = and_then (BaseSelectMenu_from_payload k) (\<lambda>c. Inr (RoleSelectMenu c))"
  by (simp add: and_then_def subscript_def)

lemma factory_mentionable_select:
  "p_type k = Some 7 \<Longrightarrow>
   component_factory E (Payload k cs) =
     and_then (BaseSelectMenu_from_payload k) (\<lambda>c. Inr (MentionableSelectMenu c))"
  by (simp add: and_then_def subscript_def)

lemma factory_channel_select:
  "p_type k = Some 8 \<Longrightarrow>
   component_factory E (Payload k cs) =
     and_then (ChannelSelectMenu_from_payload k) (\<lambda>c. Inr (ChannelSelectMenu c))"
  by (simp add: and_then_def subscript_def)

lemma factory_unknown:
  "p_type k = Some t \<Longrightarrow> t < 1 \<or> 8 < t \<Longrightarrow>
   component_factory E (Payload k cs) = and_then (assert_never t) (\<lambda>_. Inr RawComponent)"
  by (auto simp: and_then_def subscript_def)

lemma truncate_base [simp]: "base_select_menu.truncate (m :: base_select_menu) = m"
  by (cases m) (simp add: base_select_menu.truncate_def)

lemma roundtrip_list:
  assumes "\<And>c. c \<in> set cs \<Longrightarrow> normal E c \<Longrightarrow>
             \<exists>w. to_dict E c = Inr w \<and> component_factory E w = Inr c"
      and "list_all (normal E) cs"
  shows "\<exists>ds. to_dict_list E cs = Inr ds \<and> factory_list E ds = Inr cs"
  using assms
proof (induction cs)
  case Nil
  then show ?case by simp
next
  case (Cons c cs)
  from Cons.prems obtain w where w: "to_dict E c = Inr w" "component_factory E w = Inr c"
    by auto
  from Cons obtain ds where ds: "to_dict_list E cs = Inr ds" "factory_list E ds = Inr cs"
    by auto
  show ?case using w ds by (simp add: and_then_def)
qed

lemma roundtrip_component:
  "normal E x \<Longrightarrow>
   \<exists>w. to_dict E x = Inr w \<and> component_factory E w = Inr x \<and> from_payload_as E x w = Inr x"
proof (induction x)
  case (ActionRow cs)
  have "\<exists>ds. to_dict_list E cs = Inr ds \<and> factory_list E ds = Inr cs"
  proof (rule roundtrip_list)
    fix c assume "c \<in> set cs" "normal E c"
    with ActionRow.IH show "\<exists>w. to_dict E c = Inr w \<and> component_factory E w = Inr c" by blast
  next
    from ActionRow.prems show "list_all (normal E) cs" by simp
  qed
  then obtain ds where "to_dict_list E cs = Inr ds" "factory_list E ds = Inr cs" by blast
  then show ?case by (simp add: and_then_def subscript_def no_keys_def ComponentType_action_row_def)
next
  case (UrlButton c)
  then show ?case
    by (simp add: factory_url_button[OF to_dict_tags(1,2)] UrlButton_roundtrip and_then_def
        del: component_factory.simps)
next
  case (Button c)
  then show ?case
    by (simp add: factory_button[OF to_dict_tags(3,4)] Button_roundtrip and_then_def
        del: component_factory.simps)
next
  case (StringSelectMenu c)
  then show ?case
    by (simp add: factory_string_select[OF to_dict_tags(5)] StringSelectMenu_roundtrip and_then_def
        del: component_factory.simps)
next
  case (UserSelectMenu c)
  then show ?case
    by (simp add: factory_user_select to_dict_tags(6) BaseSelectMenu_roundtrip and_then_def
        ComponentType_user_select_def del: component_factory.simps)
next
  case (RoleSelectMenu c)
  then show ?case
    by (simp add: factory_role_select to_dict_tags(6) BaseSelectMenu_roundtrip and_then_def
        ComponentType_role_select_def del: component_factory.simps)
next
  case (MentionableSelectMenu c)
  then show ?case
    by (simp add: factory_mentionable_select to_dict_tags(6) BaseSelectMenu_roundtrip and_then_def
        ComponentType_mentionable_select_def del: component_factory.simps)
next
  case (ChannelSelectMenu c)
  then show ?case
    by (simp add: factory_channel_select[OF to_dict_tags(7)] ChannelSelectMenu_roundtrip and_then_def
        del: component_factory.simps)
next
  case (TextInput c)
  then show ?case
    by (simp add: factory_text_input[OF to_dict_tags(8)] TextInput_roundtrip and_then_def
        del: component_factory.simps)
next
  case RawComponent
  then show ?case by simp
qed

text \<open>
  Claim C1, as amended. For every component of a concrete variant in which no label,
  placeholder or description is the empty string, \<open>channel_types\<close> is not the empty
  list and every emoji survives its own codec, encoding succeeds and decoding the
  encoding, by the class's own \<open>from_payload\<close> as well as by the factory, gives the
  component back; likewise \<open>from_dict\<close> for a select option. The claim as written
  fails for a button whose label is the empty string, which \<open>to_dict\<close> leaves out
  and \<open>from_payload\<close> reads back as \<open>None\<close>.
\<close>
theorem roundtrip_decode_encode:
  "(normal E x \<longrightarrow>
      (\<exists>w. to_dict E x = Inr w \<and> from_payload_as E x w = Inr x \<and> component_factory E w = Inr x))
   \<and> (normal_option E opt \<longrightarrow> SelectOption_from_dict E (SelectOption_to_dict E opt) = Inr opt)"
  using roundtrip_component[of E x] SelectOption_roundtrip[of E opt] by blast

theorem roundtrip_decode_encode_counterexample:
  "to_dict plain_emoji
     (Button \<lparr>b_style = 1, b_custom_id = ''a'', b_disabled = False, b_label = Some [], b_emoji = None\<rparr>)
     = Inr (Payload (no_keys\<lparr>p_type := Some 2, p_style := Some 1, p_custom_id := Some ''a'',
              p_disabled := Some False\<rparr>) None)
   \<and> from_payload_as plain_emoji
       (Button \<lparr>b_style = 1, b_custom_id = ''a'', b_disabled = False, b_label = Some [], b_emoji = None\<rparr>)
       (Payload (no_keys\<lparr>p_type := Some 2, p_style := Some 1, p_custom_id := Some ''a'',
              p_disabled := Some False\<rparr>) None)
     = Inr (Button \<lparr>b_style = 1, b_custom_id = ''a'', b_disabled = False, b_label = None, b_emoji = None\<rparr>)
   \<and> Button \<lparr>b_style = 1, b_custom_id = ''a'', b_disabled = False, b_label = None, b_emoji = None\<rparr>
       \<noteq> Button \<lparr>b_style = 1, b_custom_id = ''a'', b_disabled = False, b_label = Some [],
                   b_emoji = (None :: string option)\<rparr>"
  by (simp add: Button_to_dict_def Button_from_payload_def codec_simps)

theorem roundtrip_decode_encode_witness:
  "normal plain_emoji
     (ActionRow [Button \<lparr>b_style = 1, b_custom_id = ''a'', b_disabled = False, b_label = Some ''Go'',
                         b_emoji = Some ''tada''\<rparr>,
                 UrlButton \<lparr>ub_url = ''https://e.org'', ub_disabled = True, ub_label = None, ub_emoji = None\<rparr>])
   \<and> to_dict plain_emoji
     (ActionRow [Button \<lparr>b_style = 1, b_custom_id = ''a'', b_disabled = False, b_label = Some ''Go'',
                         b_emoji = Some ''tada''\<rparr>,
                 UrlButton \<lparr>ub_url = ''https://e.org'', ub_disabled = True, ub_label = None, ub_emoji = None\<rparr>])
     = Inr (Payload (no_keys\<lparr>p_type := Some 1\<rparr>)
         (Some [Payload (no_keys\<lparr>p_type := Some 2, p_style := Some 1, p_custom_id := Some ''a'',
                   p_disabled := Some False, p_label := Some ''Go'', p_emoji := Some ''tada''\<rparr>) None,
                Payload (no_keys\<lparr>p_type := Some 2, p_style := Some 5, p_url := Some ''https://e.org'',
                   p_disabled := Some True\<rparr>) None]))
   \<and> component_factory plain_emoji (Payload (no_keys\<lparr>p_type := Some 1\<rparr>)
         (Some [Payload (no_keys\<lparr>p_type := Some 2, p_style := Some 1, p_custom_id := Some ''a'',
                   p_disabled := Some False, p_label := Some ''Go'', p_emoji := Some ''tada''\<rparr>) None,
                Payload (no_keys\<lparr>p_type := Some 2, p_style := Some 5, p_url := Some ''https://e.org'',
                   p_disabled := Some True\<rparr>) None]))
     = Inr (ActionRow [Button \<lparr>b_style = 1, b_custom_id = ''a'', b_disabled = False, b_label = Some ''Go'',
                         b_emoji = Some ''tada''\<rparr>,
                 UrlButton \<lparr>ub_url = ''https://e.org'', ub_disabled = True, ub_label = None, ub_emoji = None\<rparr>])
   \<and> normal_option plain_emoji
       \<lparr>so_label = ''l'', so_value = ''v'', so_description = Some ''d'', so_emoji = Some ''x'', so_default = True\<rparr>
   \<and> SelectOption_from_dict plain_emoji (SelectOption_to_dict plain_emoji
       \<lparr>so_label = ''l'', so_value = ''v'', so_description = Some ''d'', so_emoji = Some ''x'', so_default = True\<rparr>)
     = Inr \<lparr>so_label = ''l'', so_value = ''v'', so_description = Some ''d'', so_emoji = Some ''x'', so_default = True\<rparr>"
proof -
  let ?x = "ActionRow [Button \<lparr>b_style = 1, b_custom_id = ''a'', b_disabled = False, b_label = Some ''Go'',
                         b_emoji = Some ''tada''\<rparr>,
                 UrlButton \<lparr>ub_url = ''https://e.org'', ub_disabled = True, ub_label = None, ub_emoji = None\<rparr>]"
  let ?o = "\<lparr>so_label = ''l'', so_value = ''v'', so_description = Some ''d'', so_emoji = Some ''x'', so_default = True\<rparr>"
  have n: "normal plain_emoji ?x" by (simp add: emoji_roundtrips_def plain_emoji_def)
  have no: "normal_option plain_emoji ?o"
    by (simp add: normal_option_def option_emoji_roundtrips_def plain_emoji_def)
  have t: "to_dict plain_emoji ?x = Inr (Payload (no_keys\<lparr>p_type := Some 1\<rparr>)
         (Some [Payload (no_keys\<lparr>p_type := Some 2, p_style := Some 1, p_custom_id := Some ''a'',
                   p_disabled := Some False, p_label := Some ''Go'', p_emoji := Some ''tada''\<rparr>) None,
                Payload (no_keys\<lparr>p_type := Some 2, p_style := Some 5, p_url := Some ''https://e.org'',
                   p_disabled := Some True\<rparr>) None]))"
    by (simp add: Button_to_dict_def UrlButton_to_dict_def codec_simps plain_emoji_def)
  from roundtrip_decode_encode[of plain_emoji ?x ?o] n no t show ?thesis by simp
qed










lemma and_then_Inr_D:
  "and_then r f = Inr y \<Longrightarrow> \<exists>x. r = Inr x \<and> f x = Inr y"
  by (cases r) (simp_all add: and_then_def)





lemma emoji_decodes_D: "emoji_decodes E v \<Longrightarrow> \<exists>r. decode_emoji E v = Inr r \<and> (v = None \<longrightarrow> r = None)"
  by (cases "decode_emoji E v") (auto simp: emoji_decodes_def decode_emoji_def split: option.splits)

lemma Button_decodes:
  assumes "has_keys k [K_style, K_custom_id]" "emoji_decodes E (p_emoji k)"
  shows "\<exists>b. Button_from_payload E k = Inr b
           \<and> (p_disabled k = None \<longrightarrow> \<not> b_disabled b)
           \<and> (p_label k = None \<longrightarrow> b_label b = None)
           \<and> (p_emoji k = None \<longrightarrow> b_emoji b = None)"
  using assms(1) emoji_decodes_D[OF assms(2)]
  by (auto simp: Button_from_payload_def has_keys_def and_then_def subscript_def get_default_def)

lemma UrlButton_decodes:
  assumes "p_url k = Some u" "emoji_decodes E (p_emoji k)"
  shows "\<exists>b. UrlButton_from_payload E k = Inr b \<and> ub_url b = u
           \<and> (p_disabled k = None \<longrightarrow> \<not> ub_disabled b)
           \<and> (p_label k = None \<longrightarrow> ub_label b = None)
           \<and> (p_emoji k = None \<longrightarrow> ub_emoji b = None)"
  using assms(1) emoji_decodes_D[OF assms(2)]
  by (auto simp: UrlButton_from_payload_def and_then_def subscript_def get_default_def)














lemma SelectOption_new_D:
  "SelectOption_new E store l v d e df = Inr (a, store') \<Longrightarrow>
   \<exists>self. SelectOption_init E l v d e df = Inr self \<and> a = length store \<and> store' = store @ [self]"
  by (auto simp: SelectOption_new_def new_object_def dest!: and_then_Inr_D)

text \<open>
  Claim C9, as amended. \<open>SelectOption\<close> has no \<open>__eq__\<close>, so \<open>==\<close> is object
  identity: two options constructed one after the other from the same arguments hold
  the same field values and compare unequal, and each compares equal to itself. The
  claim as written fails for two such instances.
\<close>
theorem SelectOption_eq_is_identity:
  assumes "SelectOption_new E store l v d e df = Inr (a, store1)"
      and "SelectOption_new E store1 l v d e df = Inr (b, store2)"
  shows "deref store2 a = deref store2 b \<and> deref store2 a \<noteq> None
         \<and> \<not> object_eq a b \<and> object_eq a a \<and> object_eq b b"
proof -
  from SelectOption_new_D[OF assms(1)] obtain self where
    s: "SelectOption_init E l v d e df = Inr self" "a = length store" "store1 = store @ [self]"
    by (elim exE conjE)
  from SelectOption_new_D[OF assms(2)] s(1) have
    t: "b = length store1" "store2 = store1 @ [self]"
    by auto
  show ?thesis using s(2,3) t
    by (simp add: deref_def object_eq_def nth_append)
qed

theorem SelectOption_eq_is_identity_counterexample:
  "SelectOption_new plain_emoji [] ''a'' None None None False
     = Inr (0, [\<lparr>so_label = ''a'', so_value = ''a'', so_description = None, so_emoji = None,
                 so_default = False\<rparr>])
   \<and> SelectOption_new plain_emoji
       [\<lparr>so_label = ''a'', so_value = ''a'', so_description = None, so_emoji = None, so_default = False\<rparr>]
       ''a'' None None None False
     = Inr (1, [\<lparr>so_label = ''a'', so_value = ''a'', so_description = None, so_emoji = None,
                 so_default = False\<rparr>,
               \<lparr>so_label = ''a'', so_value = ''a'', so_description = None, so_emoji = None,
                 so_default = False\<rparr>])
   \<and> deref [\<lparr>so_label = ''a'', so_value = ''a'', so_description = None, so_emoji = (None :: string option),
                 so_default = False\<rparr>,
             \<lparr>so_label = ''a'', so_value = ''a'', so_description = None, so_emoji = None,
                 so_default = False\<rparr>] 0
     = deref [\<lparr>so_label = ''a'', so_value = ''a'', so_description = None, so_emoji = (None :: string option),
                 so_default = False\<rparr>,
             \<lparr>so_label = ''a'', so_value = ''a'', so_description = None, so_emoji = None,
                 so_default = False\<rparr>] 1
   \<and> \<not> object_eq 0 1"
  by (simp add: SelectOption_new_def SelectOption_init_def new_object_def deref_def object_eq_def
      and_then_def get_default_def)

theorem SelectOption_eq_is_identity_witness:
  "\<not> object_eq 0 1 \<and> object_eq 0 0 \<and> object_eq 1 1
   \<and> deref [\<lparr>so_label = ''a'', so_value = ''a'', so_description = None, so_emoji = (None :: string option),
                 so_default = False\<rparr>,
             \<lparr>so_label = ''a'', so_value = ''a'', so_description = None, so_emoji = None,
                 so_default = False\<rparr>] 0
     = deref [\<lparr>so_label = ''a'', so_value = ''a'', so_description = None, so_emoji = (None :: string option),
                 so_default = False\<rparr>,
             \<lparr>so_label = ''a'', so_value = ''a'', so_description = None, so_emoji = None,
                 so_default = False\<rparr>] 1"
proof -
  let ?o = "\<lparr>so_label = ''a'', so_value = ''a'', so_description = None, so_emoji = (None :: string option),
                 so_default = False\<rparr>"
  have 1: "SelectOption_new plain_emoji [] ''a'' None None None False = Inr (0, [?o])"
    by (simp add: SelectOption_new_def SelectOption_init_def new_object_def and_then_def get_default_def)
  have 2: "SelectOption_new plain_emoji [?o] ''a'' None None None False = Inr (1, [?o, ?o])"
    by (simp add: SelectOption_new_def SelectOption_init_def new_object_def and_then_def get_default_def)
  from SelectOption_eq_is_identity[OF 1 2] show ?thesis by simp
qed

subsection \<open>Re-encoding and the dispatch on the tag\<close>


















text \<open>
  Claim C4, as amended. A wire object of tag 2 without a \<open>url\<close> key decodes to
  nothing but a \<open>Button\<close> (and does decode when \<open>style\<close> and \<open>custom_id\<close> are
  present), one with a \<open>url\<close> key to nothing but a \<open>UrlButton\<close> with that url;
  for a tag outside 1 to 8 the factory does not raise and returns a bare
  \<open>Component\<close>. The claim as written fails for tag 99.
\<close>
theorem factory_dispatch:
  "(p_type k = Some 2 \<and> p_url k = None \<longrightarrow>
      (\<forall>c. component_factory E (Payload k cs) = Inr c \<longrightarrow> (\<exists>b. c = Button b))
      \<and> (has_keys k [K_style, K_custom_id] \<and> emoji_decodes E (p_emoji k) \<longrightarrow>
           (\<exists>b. component_factory E (Payload k cs) = Inr (Button b))))
   \<and> (p_type k = Some 2 \<and> p_url k = Some u \<longrightarrow>
      (\<forall>c. component_factory E (Payload k cs) = Inr c \<longrightarrow> (\<exists>b. c = UrlButton b))
      \<and> (emoji_decodes E (p_emoji k) \<longrightarrow>
           (\<exists>b. component_factory E (Payload k cs) = Inr (UrlButton b) \<and> ub_url b = u)))
   \<and> (p_type k = Some t \<and> (t < 1 \<or> 8 < t) \<longrightarrow>
        component_factory E (Payload k cs) = Inr RawComponent)"
proof (intro conjI impI allI)
  fix c
  assume h: "p_type k = Some 2 \<and> p_url k = None" and c: "component_factory E (Payload k cs) = Inr c"
  from h have "component_factory E (Payload k cs) = and_then (Button_from_payload E k) (\<lambda>c. Inr (Button c))"
    by (intro factory_button) simp_all
  with c show "\<exists>b. c = Button b" by (auto simp: and_then_def split: sum.splits)
next
  assume h: "p_type k = Some 2 \<and> p_url k = None"
    and d: "has_keys k [K_style, K_custom_id] \<and> emoji_decodes E (p_emoji k)"
  from h have f: "component_factory E (Payload k cs) = and_then (Button_from_payload E k) (\<lambda>c. Inr (Button c))"
    by (intro factory_button) simp_all
  from Button_decodes[OF d[THEN conjunct1] d[THEN conjunct2]]
  obtain b where "Button_from_payload E k = Inr b" by (elim exE conjE)
  with f show "\<exists>b. component_factory E (Payload k cs) = Inr (Button b)" by (simp add: and_then_def)
next
  fix c
  assume h: "p_type k = Some 2 \<and> p_url k = Some u" and c: "component_factory E (Payload k cs) = Inr c"
  from h have "component_factory E (Payload k cs) = and_then (UrlButton_from_payload E k) (\<lambda>c. Inr (UrlButton c))"
    by (intro factory_url_button) simp_all
  with c show "\<exists>b. c = UrlButton b" by (auto simp: and_then_def split: sum.splits)
next
  assume h: "p_type k = Some 2 \<and> p_url k = Some u" and d: "emoji_decodes E (p_emoji k)"
  from h have f: "component_factory E (Payload k cs) = and_then (UrlButton_from_payload E k) (\<lambda>c. Inr (UrlButton c))"
    by (intro factory_url_button) simp_all
  from UrlButton_decodes[OF h[THEN conjunct2] d]
  obtain b where "UrlButton_from_payload E k = Inr b" "ub_url b = u" by (elim exE conjE)
  with f show "\<exists>b. component_factory E (Payload k cs) = Inr (UrlButton b) \<and> ub_url b = u"
    by (simp add: and_then_def)
next
  assume h: "p_type k = Some t \<and> (t < 1 \<or> 8 < t)"
  from factory_unknown[OF h[THEN conjunct1] h[THEN conjunct2]]
  show "component_factory E (Payload k cs) = Inr RawComponent"
    by (simp add: assert_never_def and_then_def del: component_factory.simps)
qed

theorem factory_dispatch_counterexample:
  "component_factory plain_emoji (Payload (no_keys\<lparr>p_type := Some 99\<rparr>) None) = Inr RawComponent"
  by (simp add: codec_simps assert_never_def)

theorem factory_dispatch_witness:
  "component_factory plain_emoji
     (Payload (no_keys\<lparr>p_type := Some 2, p_style := Some 1, p_custom_id := Some ''blahaj''\<rparr>) None)
     = Inr (Button \<lparr>b_style = 1, b_custom_id = ''blahaj'', b_disabled = False, b_label = None,
                    b_emoji = None\<rparr>)
   \<and> component_factory plain_emoji
     (Payload (no_keys\<lparr>p_type := Some 2, p_style := Some 5, p_url := Some ''https://e.org''\<rparr>) None)
     = Inr (UrlButton \<lparr>ub_url = ''https://e.org'', ub_disabled = False, ub_label = None, ub_emoji = None\<rparr>)
   \<and> component_factory plain_emoji (Payload (no_keys\<lparr>p_type := Some 0\<rparr>) None)
     = Inr RawComponent"
proof -
  let ?k = "no_keys\<lparr>p_type := Some 0\<rparr> :: string payload_keys"
  have "p_type ?k = Some 0 \<and> ((0::int) < 1 \<or> 8 < (0::int))" by (simp add: no_keys_def)
  with factory_dispatch[where k = ?k and E = plain_emoji and cs = None and t = 0 and u = "[]"]
  have u: "component_factory plain_emoji (Payload ?k None) = Inr RawComponent" by blast
  have b: "component_factory plain_emoji
     (Payload (no_keys\<lparr>p_type := Some 2, p_style := Some 1, p_custom_id := Some ''blahaj''\<rparr>) None)
     = Inr (Button \<lparr>b_style = 1, b_custom_id = ''blahaj'', b_disabled = False, b_label = None,
                    b_emoji = None\<rparr>)"
    by (simp add: Button_from_payload_def codec_simps)
  have ub: "component_factory plain_emoji
     (Payload (no_keys\<lparr>p_type := Some 2, p_style := Some 5, p_url := Some ''https://e.org''\<rparr>) None)
     = Inr (UrlButton \<lparr>ub_url = ''https://e.org'', ub_disabled = False, ub_label = None, ub_emoji = None\<rparr>)"
    by (simp add: UrlButton_from_payload_def codec_simps)
  from u b ub show ?thesis by (intro conjI)
qed

end
